theory Spec2Isabelle
  imports Complex_Main "HOL-Library.Multiset" "HOL-Library.Log_Nat"
begin

chapter \<open>The notebooks' executors: TagsHasher, SimpleRanker, LMDBStorage\<close>

text \<open>
  The three executors are Python classes. Their methods are embedded as HOL functions:
  an exception is a value of \<open>py_error\<close>, and a method that can raise returns
  \<open>py_error + 'a\<close> with \<open>Inl\<close> for the exception; a method that mutates the Documents
  it is given returns them, together with the exception that stopped it, if any. All
  definitions come first, the lemmas and theorems about them follow.
\<close>

section \<open>Python exceptions\<close>

text \<open>The builtin exceptions that the methods meet, and \<open>lmdb.BadValsizeError\<close>.\<close>

datatype py_error =
  TypeError | ValueError | OverflowError | ZeroDivisionError | IndexError | NameError
  | BadValsizeError

section \<open>Floats\<close>

text \<open>
  Python's \<open>float\<close> and numpy's \<open>float64\<close> are IEEE binary64. A finite float is modelled
  by the rational number it denotes (\<open>-0.0\<close> and \<open>0.0\<close> compare equal and are both
  \<open>Finite 0\<close>); the arithmetic rounds the exact result to the nearest float, ties to even.
\<close>

datatype f64 = Finite rat | PInf | NInf | NaN

definition round_half_even :: "rat \<Rightarrow> int" where
  "round_half_even q =
     (let f = \<lfloor>q\<rfloor>; d = q - of_int f
      in if d < 1 / 2 then f else if 1 / 2 < d then f + 1 else if even f then f else f + 1)"

text \<open>\<open>ilog2 q\<close> is the integer \<open>k\<close> with \<open>2 powi k \<le> q < 2 powi (k + 1)\<close>, for positive \<open>q\<close>.\<close>

definition ilog2 :: "rat \<Rightarrow> int" where
  "ilog2 q = (if 1 \<le> q then bitlen \<lfloor>q\<rfloor> - 1 else - bitlen (\<lceil>1 / q\<rceil> - 1))"

text \<open>
  Rounding to binary64: 53 significant bits, the smallest unit \<open>2 powi (- 1074)\<close>
  (subnormal numbers), overflow to infinity from \<open>2 ^ 1024\<close> on.
\<close>

definition rnd :: "rat \<Rightarrow> f64" where
  "rnd q =
     (if q = 0 then Finite 0
      else let e = max (ilog2 \<bar>q\<bar> - 52) (- 1074);
               y = of_int (round_half_even (\<bar>q\<bar> / 2 powi e)) * 2 powi e
           in if 2 ^ 1024 \<le> y then (if 0 < q then PInf else NInf)
              else Finite (if 0 < q then y else - y))"

definition fadd :: "f64 \<Rightarrow> f64 \<Rightarrow> f64" where
  "fadd a b =
     (case (a, b) of
        (Finite x, Finite y) \<Rightarrow> rnd (x + y)
      | (NaN, _) \<Rightarrow> NaN
      | (_, NaN) \<Rightarrow> NaN
      | (PInf, NInf) \<Rightarrow> NaN
      | (NInf, PInf) \<Rightarrow> NaN
      | (PInf, _) \<Rightarrow> PInf
      | (_, PInf) \<Rightarrow> PInf
      | (NInf, _) \<Rightarrow> NInf
      | (_, NInf) \<Rightarrow> NInf)"

definition fmul :: "f64 \<Rightarrow> f64 \<Rightarrow> f64" where
  "fmul a b =
     (case (a, b) of
        (Finite x, Finite y) \<Rightarrow> rnd (x * y)
      | (NaN, _) \<Rightarrow> NaN
      | (_, NaN) \<Rightarrow> NaN
      | (Finite x, PInf) \<Rightarrow> if x = 0 then NaN else if 0 < x then PInf else NInf
      | (Finite x, NInf) \<Rightarrow> if x = 0 then NaN else if 0 < x then NInf else PInf
      | (PInf, Finite y) \<Rightarrow> if y = 0 then NaN else if 0 < y then PInf else NInf
      | (NInf, Finite y) \<Rightarrow> if y = 0 then NaN else if 0 < y then NInf else PInf
      | (PInf, PInf) \<Rightarrow> PInf
      | (NInf, NInf) \<Rightarrow> PInf
      | (PInf, NInf) \<Rightarrow> NInf
      | (NInf, PInf) \<Rightarrow> NInf)"

text \<open>
  \<open>int(x)\<close> of a float truncates towards zero. \<open>float(n)\<close> of an integer rounds, and
  raises OverflowError when the integer is too large for a float.
\<close>

definition trunc :: "rat \<Rightarrow> int" where
  "trunc q = (if 0 \<le> q then \<lfloor>q\<rfloor> else \<lceil>q\<rceil>)"

definition int_to_f64 :: "int \<Rightarrow> py_error + f64" where
  "int_to_f64 n = (case rnd (of_int n) of Finite q \<Rightarrow> Inr (Finite q) | _ \<Rightarrow> Inl OverflowError)"

text \<open>
  \<open>vx % wx\<close> on floats with a finite \<open>wx \<noteq> 0\<close>, as CPython computes it: the exact
  \<open>fmod\<close>, which has the sign of \<open>vx\<close>, then one rounded addition of \<open>wx\<close> when the signs
  differ. An infinite or NaN \<open>vx\<close> gives NaN.
\<close>

definition float_rem :: "f64 \<Rightarrow> rat \<Rightarrow> f64" where
  "float_rem vx wx =
     (case vx of
        Finite v \<Rightarrow>
          (let m = v - wx * of_int (trunc (v / wx))
           in if m \<noteq> 0 then (if (wx < 0) \<noteq> (m < 0) then rnd (m + wx) else Finite m)
              else Finite 0)
      | _ \<Rightarrow> NaN)"

section \<open>Strings and the builtins \<open>int\<close> and \<open>float\<close> on strings\<close>

text \<open>
  A string is a list of characters; the model covers ASCII text. \<open>str.strip\<close> removes
  the characters for which \<open>str.isspace\<close> holds, \<open>str.lower\<close> maps \<open>A\<close>..\<open>Z\<close> to
  \<open>a\<close>..\<open>z\<close>.
\<close>

definition py_isspace :: "char \<Rightarrow> bool" where
  "py_isspace c =
     (c \<in> set [CHR 0x09, CHR 0x0A, CHR 0x0B, CHR 0x0C, CHR 0x0D,
                CHR 0x1C, CHR 0x1D, CHR 0x1E, CHR 0x1F, CHR 0x20])"

definition strip :: "string \<Rightarrow> string" where
  "strip s = rev (dropWhile py_isspace (rev (dropWhile py_isspace s)))"

definition lower_char :: "char \<Rightarrow> char" where
  "lower_char c =
     (case map_of (zip ''ABCDEFGHIJKLMNOPQRSTUVWXYZ'' ''abcdefghijklmnopqrstuvwxyz'') c of
        None \<Rightarrow> c
      | Some l \<Rightarrow> l)"

definition lower :: "string \<Rightarrow> string" where
  "lower s = map lower_char s"

text \<open>
  \<open>int(s)\<close> and \<open>float(s)\<close> skip blanks, tabs and line ends around the number (a
  narrower set than \<open>strip\<close>), accept one sign, and accept single underscores between
  digits.
\<close>

definition num_isspace :: "char \<Rightarrow> bool" where
  "num_isspace c = (c \<in> set [CHR 0x09, CHR 0x0A, CHR 0x0B, CHR 0x0C, CHR 0x0D, CHR 0x20])"

definition num_strip :: "string \<Rightarrow> string" where
  "num_strip s = rev (dropWhile num_isspace (rev (dropWhile num_isspace s)))"

definition is_digit :: "char \<Rightarrow> bool" where
  "is_digit c = (c \<in> set ''0123456789'')"

definition dec_value :: "string \<Rightarrow> nat" where
  "dec_value ds = foldl (\<lambda>a c. 10 * a + (of_char c - 48)) 0 ds"

text \<open>
  The underscores of a numeric literal are dropped when each stands between two digits;
  any other underscore makes the literal invalid. \<open>prev\<close> is the character before.
\<close>

fun rm_underscores :: "char option \<Rightarrow> string \<Rightarrow> string option" where
  "rm_underscores prev [] = Some []"
| "rm_underscores prev (c # cs) =
     (if c = CHR ''_'' then
        (case (prev, cs) of
           (Some p, d # _) \<Rightarrow> if is_digit p \<and> is_digit d then rm_underscores (Some c) cs else None
         | _ \<Rightarrow> None)
      else map_option ((#) c) (rm_underscores (Some c) cs))"

definition split_sign :: "string \<Rightarrow> bool \<times> string" where
  "split_sign s =
     (case s of
        [] \<Rightarrow> (False, [])
      | c # r \<Rightarrow> if c = CHR ''-'' then (True, r) else if c = CHR ''+'' then (False, r) else (False, s))"

text \<open>\<open>int(s)\<close>: base 10; ValueError unless \<open>s\<close> is a signed sequence of digits.\<close>

definition int_of_str :: "string \<Rightarrow> py_error + int" where
  "int_of_str s =
     (case rm_underscores None (num_strip s) of
        None \<Rightarrow> Inl ValueError
      | Some t \<Rightarrow>
          (case split_sign t of
             (neg, ds) \<Rightarrow>
               if ds \<noteq> [] \<and> list_all is_digit ds
               then Inr (if neg then - int (dec_value ds) else int (dec_value ds))
               else Inl ValueError))"

definition exponent_of_str :: "string \<Rightarrow> int option" where
  "exponent_of_str s =
     (case s of
        [] \<Rightarrow> Some 0
      | c # r \<Rightarrow>
          if c = CHR ''e'' \<or> c = CHR ''E'' then
            (case split_sign r of
               (neg, ds) \<Rightarrow>
                 if ds \<noteq> [] \<and> list_all is_digit ds
                 then Some (if neg then - int (dec_value ds) else int (dec_value ds))
                 else None)
          else None)"

text \<open>
  \<open>float(s)\<close>: \<open>inf\<close>, \<open>infinity\<close> and \<open>nan\<close> in any case, or a decimal literal with
  an optional fraction and exponent and at least one digit in the mantissa; the value is
  the decimal number rounded to the nearest float. ValueError otherwise.
\<close>

definition float_of_str :: "string \<Rightarrow> py_error + f64" where
  "float_of_str s =
     (case rm_underscores None (num_strip s) of
        None \<Rightarrow> Inl ValueError
      | Some t \<Rightarrow>
          (case split_sign t of
             (neg, u) \<Rightarrow>
               if lower u = ''inf'' \<or> lower u = ''infinity'' then Inr (if neg then NInf else PInf)
               else if lower u = ''nan'' then Inr NaN
               else
                 let ip = takeWhile is_digit u;
                     r = dropWhile is_digit u;
                     fp = (case r of [] \<Rightarrow> [] | c # r' \<Rightarrow> if c = CHR ''.'' then takeWhile is_digit r' else []);
                     r'' = (case r of [] \<Rightarrow> [] | c # r' \<Rightarrow> if c = CHR ''.'' then dropWhile is_digit r' else r)
                 in if ip = [] \<and> fp = [] then Inl ValueError
                    else (case exponent_of_str r'' of
                            None \<Rightarrow> Inl ValueError
                          | Some e \<Rightarrow>
                              Inr (rnd ((if neg then - 1 else 1) * of_nat (dec_value (ip @ fp))
                                        * 10 powi (e - int (length fp)))))))"

section \<open>Python values\<close>

text \<open>
  The values a tag can hold (the keys of \<open>doc.tags\<close> are strings), and the numbers that
  \<open>_any_hash\<close> returns: a Python \<open>int\<close> is unbounded.
\<close>

datatype pyval =
    VNone | VBool bool | VInt int | VFloat f64 | VStr string
  | VList "pyval list" | VTuple "pyval list" | VDict "(string \<times> pyval) list"

datatype number = PyInt int | PyFloat f64

text \<open>
  \<open>int(v)\<close>: TypeError for \<open>None\<close> and the containers, ValueError for a string that is
  no integer literal and for NaN, OverflowError for an infinite float.
\<close>

fun py_int :: "pyval \<Rightarrow> py_error + int" where
  "py_int VNone = Inl TypeError"
| "py_int (VBool b) = Inr (if b then 1 else 0)"
| "py_int (VInt n) = Inr n"
| "py_int (VFloat f) =
     (case f of
        Finite q \<Rightarrow> Inr (trunc q)
      | NaN \<Rightarrow> Inl ValueError
      | _ \<Rightarrow> Inl OverflowError)"
| "py_int (VStr s) = int_of_str s"
| "py_int (VList xs) = Inl TypeError"
| "py_int (VTuple xs) = Inl TypeError"
| "py_int (VDict kvs) = Inl TypeError"

fun py_float :: "pyval \<Rightarrow> py_error + f64" where
  "py_float VNone = Inl TypeError"
| "py_float (VBool b) = Inr (Finite (if b then 1 else 0))"
| "py_float (VInt n) = int_to_f64 n"
| "py_float (VFloat f) = Inr f"
| "py_float (VStr s) = float_of_str s"
| "py_float (VList xs) = Inl TypeError"
| "py_float (VTuple xs) = Inl TypeError"
| "py_float (VDict kvs) = Inl TypeError"

text \<open>The truth value of \<open>v\<close> in \<open>if not v\<close>.\<close>

fun truthy :: "pyval \<Rightarrow> bool" where
  "truthy VNone = False"
| "truthy (VBool b) = b"
| "truthy (VInt n) = (n \<noteq> 0)"
| "truthy (VFloat f) = (f \<noteq> Finite 0)"
| "truthy (VStr s) = (s \<noteq> [])"
| "truthy (VList xs) = (xs \<noteq> [])"
| "truthy (VTuple xs) = (xs \<noteq> [])"
| "truthy (VDict kvs) = (kvs \<noteq> [])"

section \<open>TagsHasher\<close>

text \<open>
  \<^verbatim>\<open>
  def __init__(self, n_dim: int = 256, max_val: int = 65536, sparse: bool = False, **kwargs):
      self.n_dim = n_dim
      self.max_val = max_val
      self.hash = hashlib.md5
      self.sparse = sparse
  \<close>
  The field \<open>hash\<close> holds the digest function. It is only used in
  \<open>int(self.hash(str(v).encode('utf-8')).hexdigest(), base=16)\<close>, and the model keeps this
  integer as a function of \<open>v\<close>: a hexadecimal string without sign denotes a natural number.
  The constructor takes the library's \<open>md5\<close> as its first argument.
\<close>

record tags_hasher =
  n_dim :: int
  max_val :: int
  hash :: "pyval \<Rightarrow> nat"
  sparse :: bool

definition TagsHasher_init ::
  "(pyval \<Rightarrow> nat) \<Rightarrow> int \<Rightarrow> int \<Rightarrow> bool \<Rightarrow> py_error + tags_hasher" where
  "TagsHasher_init md5 n_dim' max_val' sparse' =
     Inr \<lparr>n_dim = n_dim', max_val = max_val', hash = md5, sparse = sparse'\<rparr>"

text \<open>
  \<^verbatim>\<open>
  def _any_hash(self, v):
      try:
          return int(v)  # parse int parameter
      except ValueError:
          try:
              return float(v)  # parse float parameter
          except ValueError:
              if not v:
                  # ignore it when the parameter is empty
                  return 0
              if isinstance(v, str):
                  v = v.strip()
                  if v.lower() in {'true', 'yes'}:  # parse boolean parameter
                      return 1
                  if v.lower() in {'false', 'no'}:
                      return 0
              if isinstance(v, (tuple, dict, list)):
                  v = json.dumps(v, sort_keys=True)
      return int(self.hash(str(v).encode('utf-8')).hexdigest(), base=16)
  \<close>
  Only ValueError is caught: every other exception of \<open>int(v)\<close> or \<open>float(v)\<close> leaves the
  method. The notebook never imports \<open>json\<close>, so the line that calls \<open>json.dumps\<close> raises
  NameError.
\<close>

definition any_hash :: "tags_hasher \<Rightarrow> pyval \<Rightarrow> py_error + number" where
  "any_hash self v =
     (case py_int v of
        Inr n \<Rightarrow> Inr (PyInt n)
      | Inl e \<Rightarrow>
          if e \<noteq> ValueError then Inl e
          else (case py_float v of
                  Inr f \<Rightarrow> Inr (PyFloat f)
                | Inl e' \<Rightarrow>
                    if e' \<noteq> ValueError then Inl e'
                    else if \<not> truthy v then Inr (PyInt 0)
                    else (case v of
                            VStr s \<Rightarrow>
                              (let s' = strip s
                               in if lower s' = ''true'' \<or> lower s' = ''yes'' then Inr (PyInt 1)
                                  else if lower s' = ''false'' \<or> lower s' = ''no'' then Inr (PyInt 0)
                                  else Inr (PyInt (int (hash self (VStr s')))))
                          | VTuple xs \<Rightarrow> Inl NameError
                          | VDict kvs \<Rightarrow> Inl NameError
                          | VList xs \<Rightarrow> Inl NameError
                          | _ \<Rightarrow> Inr (PyInt (int (hash self v))))))"

text \<open>
  The arithmetic of the loop body. \<open>np.sign\<close> gives -1, 0 or 1 in the type of its
  argument (NaN for NaN). \<open>x % m\<close> with an integer \<open>m\<close> is Python's modulo: on integers
  the result has the sign of \<open>m\<close>, as \<open>mod\<close> on \<open>int\<close> has; on a float, \<open>m\<close> is converted
  first. A product is an integer when both factors are; the signs are converted exactly.
\<close>

definition np_sign :: "number \<Rightarrow> number" where
  "np_sign x =
     (case x of
        PyInt n \<Rightarrow> PyInt (sgn n)
      | PyFloat f \<Rightarrow>
          PyFloat (case f of Finite q \<Rightarrow> Finite (sgn q) | PInf \<Rightarrow> Finite 1
                           | NInf \<Rightarrow> Finite (- 1) | NaN \<Rightarrow> NaN))"

definition py_mod :: "number \<Rightarrow> int \<Rightarrow> py_error + number" where
  "py_mod x m =
     (case x of
        PyInt n \<Rightarrow> if m = 0 then Inl ZeroDivisionError else Inr (PyInt (n mod m))
      | PyFloat f \<Rightarrow>
          (case int_to_f64 m of
             Inl e \<Rightarrow> Inl e
           | Inr w \<Rightarrow>
               (case w of
                  Finite wx \<Rightarrow>
                    if wx = 0 then Inl ZeroDivisionError else Inr (PyFloat (float_rem f wx))
                | _ \<Rightarrow> Inl OverflowError)))"

definition to_f64 :: "number \<Rightarrow> f64" where
  "to_f64 x = (case x of PyInt n \<Rightarrow> rnd (of_int n) | PyFloat f \<Rightarrow> f)"

definition py_mul :: "number \<Rightarrow> number \<Rightarrow> number" where
  "py_mul x y =
     (case (x, y) of
        (PyInt a, PyInt b) \<Rightarrow> PyInt (a * b)
      | _ \<Rightarrow> PyFloat (fmul (to_f64 x) (to_f64 y)))"

text \<open>\<open>np.zeros(n)\<close>: a float64 array of \<open>n\<close> zeros; a negative \<open>n\<close> raises ValueError.\<close>

definition np_zeros :: "int \<Rightarrow> py_error + f64 list" where
  "np_zeros n = (if n < 0 then Inl ValueError else Inr (replicate (nat n) (Finite 0)))"

text \<open>
  \<open>table[col] += val\<close>: only an integer in \<open>-n..n-1\<close> is an index of an array of length
  \<open>n\<close> (a negative one counts from the end); the sum is a float64 addition.
\<close>

definition table_add :: "f64 list \<Rightarrow> number \<Rightarrow> number \<Rightarrow> py_error + f64 list" where
  "table_add table col val =
     (case col of
        PyFloat c \<Rightarrow> Inl IndexError
      | PyInt c \<Rightarrow>
          (let n = int (length table)
           in if c < - n \<or> n \<le> c then Inl IndexError
              else (let i = nat (if c < 0 then c + n else c)
                    in case val of
                         PyFloat f \<Rightarrow> Inr (table[i := fadd (table ! i) f])
                       | PyInt x \<Rightarrow>
                           (case int_to_f64 x of
                              Inl e \<Rightarrow> Inl e
                            | Inr f \<Rightarrow> Inr (table[i := fadd (table ! i) f])))))"

text \<open>
  \<^verbatim>\<open>
  def encode(self, docs: DocumentArray, **kwargs):
      ...
      for idx, doc in enumerate(docs):
          if doc.tags:
              idxs, data = [], []  # sparse
              table = np.zeros(self.n_dim)  # dense
              for k, v in doc.tags.items():
                  h = self._any_hash(k)
                  sign_h = np.sign(h)
                  col = h % self.n_dim
                  val = self._any_hash(v)
                  sign_v = np.sign(val)
                  val = val % self.max_val
                  idxs.append((0, col))
                  val = sign_h * sign_v * val
                  data.append(val)
                  table[col] += val

              if self.sparse:
                  doc.embedding = csr_matrix(..., shape=(1, self.n_dim))  # of data and idxs
              else:
                  doc.embedding = table
  \<close>
  \<open>encode_pair\<close> is the body of the inner loop up to the product, \<open>encode_items\<close> the inner
  loop on the state \<open>(idxs, data, table)\<close>, \<open>encode_tags\<close> the body of \<open>if doc.tags\<close>.
  The tags of a Document are a dict, that is a list of pairs in the order of iteration.
\<close>

definition encode_pair :: "tags_hasher \<Rightarrow> string \<Rightarrow> pyval \<Rightarrow> py_error + number \<times> number" where
  "encode_pair self k v =
     (case any_hash self (VStr k) of
        Inl e \<Rightarrow> Inl e
      | Inr h \<Rightarrow>
          (let sign_h = np_sign h
           in case py_mod h (n_dim self) of
                Inl e \<Rightarrow> Inl e
              | Inr col \<Rightarrow>
                  (case any_hash self v of
                     Inl e \<Rightarrow> Inl e
                   | Inr val \<Rightarrow>
                       (let sign_v = np_sign val
                        in case py_mod val (max_val self) of
                             Inl e \<Rightarrow> Inl e
                           | Inr val' \<Rightarrow> Inr (col, py_mul (py_mul sign_h sign_v) val')))))"

type_synonym encode_state = "(int \<times> number) list \<times> number list \<times> f64 list"

fun encode_items ::
  "tags_hasher \<Rightarrow> (string \<times> pyval) list \<Rightarrow> encode_state \<Rightarrow> py_error + encode_state" where
  "encode_items self [] st = Inr st"
| "encode_items self ((k, v) # kvs) (idxs, data, table) =
     (case encode_pair self k v of
        Inl e \<Rightarrow> Inl e
      | Inr (col, val) \<Rightarrow>
          (case table_add table col val of
             Inl e \<Rightarrow> Inl e
           | Inr table' \<Rightarrow> encode_items self kvs (idxs @ [(0, col)], data @ [val], table')))"

text \<open>
  The embedding of a Document: the dense table, or the arguments of \<open>csr_matrix\<close> (the
  data, the index pairs and the width) when the hasher is sparse.
\<close>

datatype embedding = Dense "f64 list" | Csr "number list" "(int \<times> number) list" int

definition encode_tags :: "tags_hasher \<Rightarrow> (string \<times> pyval) list \<Rightarrow> py_error + embedding" where
  "encode_tags self tags =
     (case np_zeros (n_dim self) of
        Inl e \<Rightarrow> Inl e
      | Inr table \<Rightarrow>
          (case encode_items self tags ([], [], table) of
             Inl e \<Rightarrow> Inl e
           | Inr (idxs, data, table') \<Rightarrow>
               Inr (if sparse self then Csr data idxs (n_dim self) else Dense table')))"

record tagged_doc =
  tags :: "(string \<times> pyval) list"
  embedding :: "embedding option"

text \<open>
  \<open>encode\<close> assigns the embeddings in place and stops at the first exception: it returns
  the Documents as they are then, and the exception.
\<close>

fun encode :: "tags_hasher \<Rightarrow> tagged_doc list \<Rightarrow> tagged_doc list \<times> py_error option" where
  "encode self [] = ([], None)"
| "encode self (doc # docs) =
     (if tags doc \<noteq> [] then
        (case encode_tags self (tags doc) of
           Inl e \<Rightarrow> (doc # docs, Some e)
         | Inr emb \<Rightarrow>
             (case encode self docs of (docs', e) \<Rightarrow> (doc\<lparr>embedding := Some emb\<rparr> # docs', e)))
      else (case encode self docs of (docs', e) \<Rightarrow> (doc # docs', e)))"

subsection \<open>Notions used to state the properties of the hasher\<close>

text \<open>
  A name or value is integer-hashed when \<open>_any_hash\<close> returns an integer for it: numbers,
  booleans, strings that are integer literals or boolean words, the empty string, and
  every string that reaches the digest. The others are the strings that only \<open>float\<close>
  parses, NaN, and the values for which \<open>_any_hash\<close> raises.
\<close>

definition is_int_hash :: "tags_hasher \<Rightarrow> pyval \<Rightarrow> bool" where
  "is_int_hash self v = (case any_hash self v of Inr (PyInt a) \<Rightarrow> True | _ \<Rightarrow> False)"

definition int_hashed :: "tags_hasher \<Rightarrow> (string \<times> pyval) list \<Rightarrow> bool" where
  "int_hashed self A =
     list_all (\<lambda>kv. is_int_hash self (VStr (fst kv)) \<and> is_int_hash self (snd kv)) A"

definition hash_int :: "tags_hasher \<Rightarrow> pyval \<Rightarrow> int" where
  "hash_int self v = (case any_hash self v of Inr (PyInt a) \<Rightarrow> a | _ \<Rightarrow> 0)"




text \<open>
  The exact integers of an integer-hashed pair: its column, its contribution, and the
  sum of the contributions of a dimension.
\<close>

definition col_of :: "tags_hasher \<Rightarrow> string \<times> pyval \<Rightarrow> int" where
  "col_of self kv = hash_int self (VStr (fst kv)) mod n_dim self"

definition contribution :: "tags_hasher \<Rightarrow> string \<times> pyval \<Rightarrow> int" where
  "contribution self kv =
     sgn (hash_int self (VStr (fst kv))) * sgn (hash_int self (snd kv))
       * (hash_int self (snd kv) mod max_val self)"

definition exact_sum :: "tags_hasher \<Rightarrow> (string \<times> pyval) list \<Rightarrow> int \<Rightarrow> int" where
  "exact_sum self A i = sum_list (map (contribution self) (filter (\<lambda>kv. col_of self kv = i) A))"

text \<open>The float of an integer that a float holds exactly.\<close>

abbreviation (input) Fint :: "int \<Rightarrow> f64" where
  "Fint z \<equiv> Finite (of_int z)"

text \<open>
  Plain text: a non-empty string that neither \<open>int\<close> nor \<open>float\<close> parses and that is no
  boolean word once stripped and lowered. Such a string reaches the digest.
\<close>

definition plain_text :: "string \<Rightarrow> bool" where
  "plain_text s \<longleftrightarrow>
     s \<noteq> [] \<and> int_of_str s = Inl ValueError \<and> float_of_str s = Inl ValueError
     \<and> lower (strip s) \<noteq> ''true'' \<and> lower (strip s) \<noteq> ''yes''
     \<and> lower (strip s) \<noteq> ''false'' \<and> lower (strip s) \<noteq> ''no''"

text \<open>A negative number, and a value that \<open>int\<close> or \<open>float\<close> parses as a negative number.\<close>

definition is_negative :: "number \<Rightarrow> bool" where
  "is_negative x =
     (case x of
        PyInt n \<Rightarrow> n < 0
      | PyFloat f \<Rightarrow> (case f of Finite q \<Rightarrow> q < 0 | NInf \<Rightarrow> True | _ \<Rightarrow> False))"

definition parses_negative :: "pyval \<Rightarrow> bool" where
  "parses_negative v =
     (case py_int v of
        Inr n \<Rightarrow> n < 0
      | Inl e \<Rightarrow>
          e = ValueError \<and> (case py_float v of Inr f \<Rightarrow> is_negative (PyFloat f) | Inl e' \<Rightarrow> False))"

subsection \<open>The hasher of the examples\<close>

text \<open>
  The digests of the strings of the examples, as \<open>hashlib.md5\<close> gives them; the examples
  use the digest of no other string.
\<close>

definition md5_sample :: "pyval \<Rightarrow> nat" where
  "md5_sample v =
     (if v = VStr ''Subject'' then 265228663692174087877860234804142081808
      else if v = VStr ''Comedy'' then 306686241769178258088323892290493637646
      else if v = VStr ''Year'' then 110971851393435799248237516907606476274
      else 0)"

text \<open>\<open>TagsHasher()\<close>, with the default arguments.\<close>

definition TagsHasher_default :: tags_hasher where
  "TagsHasher_default = \<lparr>n_dim = 256, max_val = 65536, hash = md5_sample, sparse = False\<rparr>"

section \<open>SimpleRanker\<close>

text \<open>
  \<^verbatim>\<open>
  def rank(self, docs: DocumentArray, parameters: Dict = {}, **kwargs):
      if docs is None:
          return

      for doc in docs:
          parents_scores = defaultdict(list)
          for m in doc.matches:
              parents_scores[m.parent_id].append(m.scores[self.metric].value)

          # Aggregate match scores for parent document and
          # create doc's match based on parent document of matched chunks
          matches = []
          for match_parent_id, scores in parents_scores.items():
              score = min(scores)
              matches.append(
                  Document(id=match_parent_id, scores={self.metric: NamedScore(value=score)})
              )

          # Sort the matches
          doc.matches.clear()
          doc.matches.extend(sorted(matches, key=lambda d: d.scores[self.metric].value))
  \<close>
  Of a match of the query, \<open>rank\<close> reads \<open>parent_id\<close> and \<open>scores[self.metric].value\<close>:
  a chunk-level match is modelled by these and its own id. A score is a float that is
  only compared, and is modelled by the rational number it denotes.
\<close>

record chunk_match =
  cm_id :: string
  cm_parent_id :: string
  cm_score :: rat

text \<open>
  A parent-level Document, as \<open>rank\<close> builds it and as \<open>LMDBStorage\<close> stores it: its id,
  the value of \<open>scores[metric]\<close> if it has such a score, and its other fields (uri, tensor,
  tags, ...) as one content.
\<close>

record document =
  doc_id :: string
  doc_score :: "rat option"
  doc_content :: string

text \<open>A query Document with its matches, of either level.\<close>

record 'm query =
  q_id :: string
  q_matches :: "'m list"

record simple_ranker =
  metric :: string

definition SimpleRanker_init :: simple_ranker where
  "SimpleRanker_init = \<lparr>metric = ''cosine''\<rparr>"

text \<open>
  \<open>parents_scores[p].append(s)\<close> on a \<open>defaultdict(list)\<close>: a dict keeps its keys in the
  order of their first insertion, so it is an association list.
\<close>

fun append_score :: "string \<Rightarrow> rat \<Rightarrow> (string \<times> rat list) list \<Rightarrow> (string \<times> rat list) list" where
  "append_score p s [] = [(p, [s])]"
| "append_score p s ((q, ss) # g) =
     (if p = q then (q, ss @ [s]) # g else (q, ss) # append_score p s g)"

definition collect :: "chunk_match list \<Rightarrow> (string \<times> rat list) list" where
  "collect ms = fold (\<lambda>m g. append_score (cm_parent_id m) (cm_score m) g) ms []"

text \<open>\<open>min(scores)\<close>: ValueError on the empty list; the first of the smallest otherwise.\<close>

fun py_min :: "rat list \<Rightarrow> py_error + rat" where
  "py_min [] = Inl ValueError"
| "py_min (x # xs) = Inr (fold (\<lambda>y m. if y < m then y else m) xs x)"

text \<open>\<open>Document(id=match_parent_id, scores={self.metric: NamedScore(value=score)})\<close>\<close>

definition new_match :: "string \<Rightarrow> rat \<Rightarrow> document" where
  "new_match p s = \<lparr>doc_id = p, doc_score = Some s, doc_content = []\<rparr>"

fun aggregate :: "(string \<times> rat list) list \<Rightarrow> py_error + document list" where
  "aggregate [] = Inr []"
| "aggregate ((p, scores) # g) =
     (case py_min scores of
        Inl e \<Rightarrow> Inl e
      | Inr s \<Rightarrow> (case aggregate g of
                   Inl e \<Rightarrow> Inl e
                 | Inr ds \<Rightarrow> Inr (new_match p s # ds)))"

text \<open>
  \<open>sorted(matches, key=lambda d: d.scores[self.metric].value)\<close>: Python's sort is stable,
  as \<open>sort_key\<close> is. Every Document that \<open>rank\<close> sorts has its score.
\<close>

definition score_value :: "document \<Rightarrow> rat" where
  "score_value d = the (doc_score d)"

definition rank_matches :: "chunk_match list \<Rightarrow> py_error + document list" where
  "rank_matches ms =
     (case aggregate (collect ms) of
        Inl e \<Rightarrow> Inl e
      | Inr ds \<Rightarrow> Inr (sort_key score_value ds))"

text \<open>The body of \<open>for doc in docs\<close>: the match list of the query is replaced.\<close>

definition rank_doc :: "chunk_match query \<Rightarrow> py_error + document query" where
  "rank_doc d =
     (case rank_matches (q_matches d) of
        Inl e \<Rightarrow> Inl e
      | Inr ds \<Rightarrow> Inr \<lparr>q_id = q_id d, q_matches = ds\<rparr>)"

fun rank_docs :: "chunk_match query list \<Rightarrow> py_error + document query list" where
  "rank_docs [] = Inr []"
| "rank_docs (d # ds) =
     (case rank_doc d of
        Inl e \<Rightarrow> Inl e
      | Inr d' \<Rightarrow> (case rank_docs ds of Inl e \<Rightarrow> Inl e | Inr ds' \<Rightarrow> Inr (d' # ds')))"

text \<open>
  \<open>rank\<close> with the ranker passed through: its result is the ranker after the call and
  the Documents after the call (\<open>None\<close> for \<open>docs is None\<close>), or the exception.
\<close>

definition rank ::
  "simple_ranker \<Rightarrow> chunk_match query list option \<Rightarrow>
     simple_ranker \<times> (py_error + document query list option)" where
  "rank self docs =
     (case docs of
        None \<Rightarrow> (self, Inr None)
      | Some ds \<Rightarrow> (case rank_docs ds of
                     Inl e \<Rightarrow> (self, Inl e)
                   | Inr ds' \<Rightarrow> (self, Inr (Some ds'))))"

text \<open>
  A second call. \<open>rank\<close> replaces \<open>doc.matches\<close> in place, so a call of \<open>rank\<close> on
  Documents that it has ranked before reads the matches that the first call built. Such
  a match is \<open>Document(id=p, scores={self.metric: NamedScore(value=s)})\<close>: its
  \<open>parent_id\<close> is the library's default, the empty string, and its score is \<open>s\<close>.
  \<open>as_chunk\<close> is what \<open>rank\<close> reads of it.
\<close>

definition as_chunk :: "document \<Rightarrow> chunk_match" where
  "as_chunk d = \<lparr>cm_id = doc_id d, cm_parent_id = '''', cm_score = score_value d\<rparr>"

definition reread :: "document query \<Rightarrow> chunk_match query" where
  "reread d = \<lparr>q_id = q_id d, q_matches = map as_chunk (q_matches d)\<rparr>"

definition rank_again ::
  "simple_ranker \<Rightarrow> document query list option \<Rightarrow>
     simple_ranker \<times> (py_error + document query list option)" where
  "rank_again self out = rank self (map_option (map reread) out)"

text \<open>Two calls of \<open>rank\<close> on the same Documents, one after the other.\<close>

definition rank_twice ::
  "simple_ranker \<Rightarrow> chunk_match query list option \<Rightarrow>
     simple_ranker \<times> (py_error + document query list option)" where
  "rank_twice self docs =
     (case rank self docs of
        (self', Inl e) \<Rightarrow> (self', Inl e)
      | (self', Inr out) \<Rightarrow> rank_again self' out)"

subsection \<open>Notions used to state the properties of the ranker\<close>

text \<open>
  The distinct elements of a list in the order of their first occurrence, and the
  parent-level Document of a group of scores.
\<close>

definition first_seen :: "'a list \<Rightarrow> 'a list" where
  "first_seen xs = rev (remdups (rev xs))"

definition aggregated :: "string \<times> rat list \<Rightarrow> document" where
  "aggregated g = new_match (fst g) (Min (set (snd g)))"

text \<open>The parent-level Documents of a query, as \<open>rank\<close> leaves them.\<close>

definition ranked :: "chunk_match query \<Rightarrow> document query" where
  "ranked d =
     \<lparr>q_id = q_id d, q_matches = sort_key score_value (map aggregated (collect (q_matches d)))\<rparr>"

text \<open>
  A query whose matches are collapsed into one match with the empty id and the smallest
  of all scores; a query without matches stays without matches.
\<close>

definition collapsed :: "chunk_match query \<Rightarrow> document query" where
  "collapsed d =
     \<lparr>q_id = q_id d,
      q_matches = (if q_matches d = [] then []
                   else [new_match '''' (Min (set (map cm_score (q_matches d))))])\<rparr>"

text \<open>The queries of a request; a request without Documents has none.\<close>

definition queries_of :: "'a list option \<Rightarrow> 'a list" where
  "queries_of docs = (case docs of None \<Rightarrow> [] | Some ds \<Rightarrow> ds)"

text \<open>The query of the example: three chunks of two parents.\<close>

definition example_matches :: "chunk_match list" where
  "example_matches =
     [\<lparr>cm_id = ''chunk1'', cm_parent_id = ''parentA'', cm_score = 0.1\<rparr>,
      \<lparr>cm_id = ''chunk2'', cm_parent_id = ''parentA'', cm_score = 0.05\<rparr>,
      \<lparr>cm_id = ''chunk3'', cm_parent_id = ''parentB'', cm_score = 0.2\<rparr>]"

section \<open>LMDBStorage\<close>

text \<open>
  \<^verbatim>\<open>
  def index(self, docs: DocumentArray, parameters: Dict, **kwargs):
      if docs is None:
          return
      with self._handler() as env:
          with env.begin(write=True) as transaction:
              for d in docs:
                  transaction.put(d.id.encode(), d.to_bytes())

  def search(self, docs: DocumentArray, parameters: Dict, **kwargs):
      if docs is None:
          return

      with self._handler() as env:
          with env.begin(write=True) as transaction:
              for doc in docs:
                  for match_doc in doc.matches:
                    id = match_doc.id
                    serialized_doc = Document.from_bytes(transaction.get(match_doc.id.encode()))
                    match_doc.copy_from(serialized_doc)
                    match_doc.id = id
  \<close>
  The store maps a key to the Document that was put under it (\<open>from_bytes\<close> reads back
  what \<open>to_bytes\<close> wrote); the limit \<open>map_size\<close> of its size is not modelled. A key
  of LMDB is not empty and has at most 511 bytes: \<open>transaction.put\<close> and
  \<open>transaction.get\<close> raise \<open>lmdb.BadValsizeError\<close> for any other key. An id is ASCII
  text, so that \<open>id.encode()\<close> has one byte for each character.
\<close>

type_synonym lmdb = "string \<rightharpoonup> document"

definition valid_key :: "string \<Rightarrow> bool" where
  "valid_key k = (k \<noteq> [] \<and> length k \<le> 511)"

text \<open>\<open>transaction.put(d.id.encode(), d.to_bytes())\<close>: an entry under the same key is replaced.\<close>

definition transaction_put :: "lmdb \<Rightarrow> document \<Rightarrow> py_error + lmdb" where
  "transaction_put t d =
     (if valid_key (doc_id d) then Inr (t(doc_id d \<mapsto> d)) else Inl BadValsizeError)"

text \<open>The loop of \<open>index\<close> inside its write transaction.\<close>

fun put_docs :: "lmdb \<Rightarrow> document list \<Rightarrow> py_error + lmdb" where
  "put_docs t [] = Inr t"
| "put_docs t (d # docs) =
     (case transaction_put t d of
        Inl e \<Rightarrow> Inl e
      | Inr t' \<Rightarrow> put_docs t' docs)"

text \<open>
  \<open>index\<close>: the store after the call, and the exception, if any. An exception leaves
  the \<open>with\<close> block of the write transaction, which aborts the transaction: nothing
  that the call has put is stored.
\<close>

definition index :: "lmdb \<Rightarrow> document list option \<Rightarrow> lmdb \<times> py_error option" where
  "index db docs =
     (case docs of
        None \<Rightarrow> (db, None)
      | Some ds \<Rightarrow> (case put_docs db ds of Inl e \<Rightarrow> (db, Some e) | Inr t \<Rightarrow> (t, None)))"

text \<open>\<open>transaction.get(key)\<close> gives \<open>None\<close> for a key that is not in the store.\<close>

definition transaction_get :: "lmdb \<Rightarrow> string \<Rightarrow> py_error + document option" where
  "transaction_get t k = (if valid_key k then Inr (t k) else Inl BadValsizeError)"

text \<open>\<open>Document.from_bytes(data)\<close>: a TypeError for \<open>None\<close>, which is no bytes object.\<close>

definition from_bytes :: "document option \<Rightarrow> py_error + document" where
  "from_bytes data = (case data of None \<Rightarrow> Inl TypeError | Some d \<Rightarrow> Inr d)"

text \<open>
  \<open>copy_from\<close> is the library's method that overwrites every field of the receiver with
  the fields of its argument.
\<close>

definition copy_from :: "document \<Rightarrow> document \<Rightarrow> document" where
  "copy_from self other = other"

text \<open>
  The inner loop of \<open>search\<close> on the matches of one query: the matches as they are when
  the loop ends, and the exception that ended it, if any.
\<close>

fun search_matches :: "lmdb \<Rightarrow> document list \<Rightarrow> document list \<times> py_error option" where
  "search_matches db [] = ([], None)"
| "search_matches db (match_doc # rest) =
     (let id = doc_id match_doc in
      case transaction_get db id of
        Inl e \<Rightarrow> (match_doc # rest, Some e)
      | Inr data \<Rightarrow>
          (case from_bytes data of
             Inl e \<Rightarrow> (match_doc # rest, Some e)
           | Inr serialized_doc \<Rightarrow>
               (case search_matches db rest of
                  (rest', e) \<Rightarrow> ((copy_from match_doc serialized_doc)\<lparr>doc_id := id\<rparr> # rest', e))))"

text \<open>
  The outer loop: an exception in the matches of one query ends the whole call, and the
  queries after it are not visited.
\<close>

fun search_docs :: "lmdb \<Rightarrow> document query list \<Rightarrow> document query list \<times> py_error option" where
  "search_docs db [] = ([], None)"
| "search_docs db (doc # rest) =
     (case search_matches db (q_matches doc) of
        (ms, Some e) \<Rightarrow> (doc\<lparr>q_matches := ms\<rparr> # rest, Some e)
      | (ms, None) \<Rightarrow>
          (case search_docs db rest of (rest', e) \<Rightarrow> (doc\<lparr>q_matches := ms\<rparr> # rest', e)))"

text \<open>
  \<open>search\<close>: the Documents after the call (\<open>None\<close> for \<open>docs is None\<close>), and the
  exception, if any.
\<close>

definition search ::
  "lmdb \<Rightarrow> document query list option \<Rightarrow> document query list option \<times> py_error option" where
  "search db docs =
     (case docs of
        None \<Rightarrow> (None, None)
      | Some ds \<Rightarrow> (case search_docs db ds of (ds', e) \<Rightarrow> (Some ds', e)))"

subsection \<open>Notions used to state the properties of the storage\<close>

text \<open>An id is present when it is a key of LMDB and the store has an entry under it.\<close>

definition present :: "lmdb \<Rightarrow> string \<Rightarrow> bool" where
  "present db k = (valid_key k \<and> db k \<noteq> None)"

text \<open>The exception that \<open>search\<close> raises at an id that is not present.\<close>

definition absent_error :: "string \<Rightarrow> py_error" where
  "absent_error k = (if valid_key k then TypeError else BadValsizeError)"

text \<open>
  A match after its resolution: the stored copy under the id of the match. A query
  after the resolution of all its matches.
\<close>

definition resolved :: "lmdb \<Rightarrow> document \<Rightarrow> document" where
  "resolved db m = (case db (doc_id m) of None \<Rightarrow> m | Some s \<Rightarrow> s\<lparr>doc_id := doc_id m\<rparr>)"

definition resolve_query :: "lmdb \<Rightarrow> document query \<Rightarrow> document query" where
  "resolve_query db d = d\<lparr>q_matches := map (resolved db) (q_matches d)\<rparr>"

text \<open>
  The store of the examples: the full image of parentB was indexed, that of parentA was
  not. An indexed Document has no score.
\<close>

definition example_store :: lmdb where
  "example_store =
     fst (index Map.empty
            (Some [\<lparr>doc_id = ''parentB'', doc_score = None, doc_content = ''image B''\<rparr>]))"

text \<open>The matches of the example query as the ranker leaves them.\<close>

definition example_ranked :: "document list" where
  "example_ranked =
     [\<lparr>doc_id = ''parentA'', doc_score = Some 0.05, doc_content = []\<rparr>,
      \<lparr>doc_id = ''parentB'', doc_score = Some 0.2, doc_content = []\<rparr>]"

chapter \<open>Properties\<close>

section \<open>Rounding\<close>

text \<open>
  \<open>ilog2\<close> is the binary logarithm rounded down; rounding is decided by a certificate (the
  exponent and the rounded mantissa); an integer of at most 53 bits is a float.
\<close>

lemma ilog2_bounds:
  assumes "0 < q"
  shows "2 powi (ilog2 q) \<le> q \<and> q < 2 powi (ilog2 q + 1)"
proof (cases "1 \<le> q")
  case True
  define n where "n = \<lfloor>q\<rfloor>"
  have n: "0 < n" using True by (simp add: n_def)
  have b1: "1 \<le> bitlen n" using n by (auto simp: bitlen_alt_def)
  have k: "ilog2 q = bitlen n - 1" using True by (simp add: ilog2_def n_def)
  from bitlen_bounds [OF n] have lo: "2 ^ nat (bitlen n - 1) \<le> n" and hi: "n < 2 ^ nat (bitlen n)"
    by simp_all
  have "(2::rat) powi (bitlen n - 1) = 2 ^ nat (bitlen n - 1)"
    using b1 by (simp add: power_int_def)
  also have "\<dots> = of_int (2 ^ nat (bitlen n - 1))" by simp
  also have "\<dots> \<le> of_int n" using lo by (simp only: of_int_le_iff)
  also have "\<dots> \<le> q" by (simp add: n_def)
  finally have 1: "2 powi (ilog2 q) \<le> q" by (simp add: k)
  have "n + 1 \<le> 2 ^ nat (bitlen n)" using hi by simp
  then have "of_int (n + 1) \<le> (of_int (2 ^ nat (bitlen n)) :: rat)" by (simp only: of_int_le_iff)
  moreover have "q < of_int (n + 1)" using floor_correct [of q] by (simp add: n_def)
  ultimately have "q < (2::rat) ^ nat (bitlen n)" by simp
  moreover have "(2::rat) powi (bitlen n) = 2 ^ nat (bitlen n)"
    using b1 by (simp add: power_int_def)
  ultimately have 2: "q < 2 powi (ilog2 q + 1)" by (simp add: k)
  from 1 2 show ?thesis by simp
next
  case False
  define r where "r = 1 / q"
  define n where "n = \<lceil>r\<rceil> - 1"
  have r: "1 < r" using False assms by (simp add: r_def)
  have n: "0 < n" using r by (simp add: n_def)
  have b1: "1 \<le> bitlen n" using n by (auto simp: bitlen_alt_def)
  have k: "ilog2 q = - bitlen n" using False by (simp add: ilog2_def n_def r_def)
  from bitlen_bounds [OF n] have lo: "2 ^ nat (bitlen n - 1) \<le> n" and hi: "n < 2 ^ nat (bitlen n)"
    by simp_all
  have "\<lceil>r\<rceil> \<le> 2 ^ nat (bitlen n)" using hi by (simp add: n_def)
  then have "r \<le> of_int (2 ^ nat (bitlen n))" by (simp only: ceiling_le_iff)
  then have rhi: "r \<le> 2 ^ nat (bitlen n)" by simp
  have "2 ^ nat (bitlen n - 1) < \<lceil>r\<rceil>" using lo by (simp add: n_def)
  then have "of_int (2 ^ nat (bitlen n - 1)) < r" by (simp only: less_ceiling_iff)
  then have rlo: "2 ^ nat (bitlen n - 1) < r" by simp
  have q: "q = 1 / r" using assms by (simp add: r_def)
  have p1: "(2::rat) powi (- bitlen n) = 1 / 2 ^ nat (bitlen n)"
    using b1 by (simp add: power_int_def field_simps)
  have p2: "(2::rat) powi (- bitlen n + 1) = 1 / 2 ^ nat (bitlen n - 1)"
    using b1 by (simp add: power_int_def field_simps)
  have "1 / 2 ^ nat (bitlen n) \<le> 1 / r" using rhi r by (simp add: frac_le)
  then have 1: "2 powi (ilog2 q) \<le> q" by (simp only: k p1 q [symmetric])
  have "1 / r < 1 / 2 ^ nat (bitlen n - 1)" using rlo r by (simp add: frac_less2)
  then have 2: "q < 2 powi (ilog2 q + 1)" by (simp only: k p2 q [symmetric])
  from 1 2 show ?thesis by simp
qed

lemma ilog2_less: "0 < q \<Longrightarrow> q < 2 powi k \<Longrightarrow> ilog2 q < k"
proof (rule ccontr)
  assume q: "0 < q" "q < 2 powi k" and "\<not> ilog2 q < k"
  then have "k \<le> ilog2 q" by simp
  then have "(2::rat) powi k \<le> 2 powi (ilog2 q)" by (simp add: power_int_increasing)
  with ilog2_bounds [OF q(1)] q(2) show False by simp
qed

lemma ilog2_ge: "0 < q \<Longrightarrow> 2 powi k \<le> q \<Longrightarrow> k \<le> ilog2 q"
proof (rule ccontr)
  assume q: "0 < q" "2 powi k \<le> q" and "\<not> k \<le> ilog2 q"
  then have "ilog2 q + 1 \<le> k" by simp
  then have "(2::rat) powi (ilog2 q + 1) \<le> 2 powi k" by (simp add: power_int_increasing)
  with ilog2_bounds [OF q(1)] q(2) show False by simp
qed

lemma ilog2_unique: "0 < q \<Longrightarrow> 2 powi k \<le> q \<Longrightarrow> q < 2 powi (k + 1) \<Longrightarrow> ilog2 q = k"
  using ilog2_less [of q "k + 1"] ilog2_ge [of q k] by simp

lemma round_half_even_near:
  "of_int m - 1 / 2 < x \<Longrightarrow> x < of_int m + 1 / 2 \<Longrightarrow> round_half_even x = m"
proof -
  assume a: "of_int m - 1 / 2 < x" "x < of_int m + 1 / 2"
  have "\<lfloor>x\<rfloor> = m \<or> \<lfloor>x\<rfloor> = m - 1"
  proof -
    have "of_int (m - 1) \<le> x" using a by simp
    then have "m - 1 \<le> \<lfloor>x\<rfloor>" by (simp only: le_floor_iff)
    moreover have "x < of_int (m + 1)" using a by simp
    then have "\<lfloor>x\<rfloor> < m + 1" by (simp only: floor_less_iff)
    ultimately show ?thesis by linarith
  qed
  then show ?thesis
  proof
    assume f: "\<lfloor>x\<rfloor> = m"
    then have "x - of_int m < 1 / 2" using a by simp
    then show ?thesis using f by (simp add: round_half_even_def Let_def)
  next
    assume f: "\<lfloor>x\<rfloor> = m - 1"
    then have "1 / 2 < x - of_int (m - 1)" using a by simp
    then show ?thesis using f by (simp add: round_half_even_def Let_def)
  qed
qed

lemma round_half_even_of_int [simp]: "round_half_even (of_int m) = m"
  by (rule round_half_even_near) simp_all

lemma rnd_cert:
  assumes "q \<noteq> 0" and "- 1074 \<le> e"
    and "2 powi (e + 52) \<le> \<bar>q\<bar> \<or> e = - 1074"
    and "\<bar>q\<bar> < 2 powi (e + 53)"
    and "round_half_even (\<bar>q\<bar> / 2 powi e) = m"
    and "of_int m * 2 powi e < (2::rat) ^ 1024"
  shows "rnd q = Finite (sgn q * (of_int m * 2 powi e))"
proof -
  have pos: "0 < \<bar>q\<bar>" using assms(1) by simp
  have "max (ilog2 \<bar>q\<bar> - 52) (- 1074) = e"
  proof (cases "2 powi (e + 52) \<le> \<bar>q\<bar>")
    case True
    have "\<bar>q\<bar> < 2 powi (e + 52 + 1)" using assms(4) by (simp add: add.commute add.left_commute)
    then have "ilog2 \<bar>q\<bar> = e + 52" using ilog2_unique [OF pos True] by simp
    then show ?thesis using assms(2) by simp
  next
    case False
    then have e: "e = - 1074" using assms(3) by simp
    have "ilog2 \<bar>q\<bar> < e + 53" using ilog2_less [OF pos assms(4)] .
    then show ?thesis using e by simp
  qed
  then show ?thesis
    using assms(1,5,6) by (cases "0 < q") (simp_all add: rnd_def Let_def sgn_if)
qed

lemma rnd_of_int:
  assumes "\<bar>n\<bar> \<le> 2 ^ 53"
  shows "rnd (of_int n) = Finite (of_int n)"
proof (cases "n = 0")
  case True
  then show ?thesis by (simp add: rnd_def)
next
  case False
  define a :: rat where "a = \<bar>of_int n\<bar>"
  define k where "k = ilog2 a"
  have a1: "1 \<le> a" using False by (simp add: a_def flip: of_int_abs)
  have apos: "0 < a" using a1 by simp
  have a53: "a \<le> 2 ^ 53"
  proof -
    have "of_int \<bar>n\<bar> \<le> (of_int (2 ^ 53) :: rat)" using assms by (simp only: of_int_le_iff)
    then show ?thesis by (simp add: a_def)
  qed
  have k0: "0 \<le> k" using ilog2_ge [OF apos, of 0] a1 by (simp add: k_def)
  have "a < 2 powi 54" using a53 by simp
  then have k53: "k \<le> 53" using ilog2_less [OF apos, of 54] by (simp add: k_def)
  have kb: "2 powi k \<le> a" using ilog2_bounds [OF apos] by (simp add: k_def)
  have emax: "max (k - 52) (- 1074) = k - 52" using k0 by simp
  have "of_int (round_half_even (a / 2 powi (k - 52))) * 2 powi (k - 52) = a"
  proof (cases "k \<le> 52")
    case True
    have "a / 2 powi (k - 52) = a * 2 ^ nat (52 - k)"
      using True by (simp add: power_int_def field_simps)
    also have "\<dots> = of_int (\<bar>n\<bar> * 2 ^ nat (52 - k))" by (simp add: a_def)
    finally have "round_half_even (a / 2 powi (k - 52)) = \<bar>n\<bar> * 2 ^ nat (52 - k)"
      by (simp only: round_half_even_of_int)
    moreover have "(2::rat) powi (k - 52) * 2 ^ nat (52 - k) = 1"
      using True by (simp add: power_int_def field_simps)
    ultimately show ?thesis by (simp add: a_def mult.assoc mult.commute)
  next
    case False
    then have k: "k = 53" using k53 by simp
    have "a = 2 ^ 53" using kb a53 by (simp add: k)
    then show ?thesis using round_half_even_of_int [of "2 ^ 52"] by (simp add: k)
  qed
  moreover have "a < 2 ^ 1024"
  proof -
    have "(2::rat) ^ 53 < 2 ^ 1024" by (rule power_strict_increasing) simp_all
    with a53 show ?thesis by simp
  qed
  ultimately show ?thesis
    using False emax by (cases "0 < n") (simp_all add: rnd_def Let_def a_def k_def)
qed

lemma floor_numeral_div_rat [simp]:
  "\<lfloor>numeral a / numeral b :: rat\<rfloor> = numeral a div numeral b"
  using floor_divide_of_int_eq [of "numeral a" "numeral b", where ?'a = rat] by simp

lemma floor_minus_numeral_div_rat [simp]:
  "\<lfloor>- (numeral a / numeral b) :: rat\<rfloor> = - numeral a div numeral b"
  using floor_divide_of_int_eq [of "- numeral a" "numeral b", where ?'a = rat] by simp

lemma ceiling_numeral_div_rat [simp]:
  "\<lceil>numeral a / numeral b :: rat\<rceil> = - (- numeral a div numeral b)"
  using floor_divide_of_int_eq [of "- numeral a" "numeral b", where ?'a = rat]
  by (simp add: ceiling_def)

lemma ceiling_minus_numeral_div_rat [simp]:
  "\<lceil>- (numeral a / numeral b) :: rat\<rceil> = - (numeral a div numeral b)"
  using floor_divide_of_int_eq [of "numeral a" "numeral b", where ?'a = rat]
  by (simp add: ceiling_def)

lemma floor_half: "\<lfloor>of_int f + 1 / 2 :: rat\<rfloor> = f"
  by (rule floor_unique) simp_all

lemma round_half_even_tie_even:
  "x = of_int f + 1 / 2 \<Longrightarrow> even f \<Longrightarrow> round_half_even x = f"
  by (simp add: round_half_even_def Let_def floor_half)

lemma round_half_even_tie_odd:
  "x = of_int f + 1 / 2 \<Longrightarrow> odd f \<Longrightarrow> round_half_even x = f + 1"
  by (simp add: round_half_even_def Let_def floor_half)

lemma rnd_one: "rnd 1 = Finite 1"
  using rnd_of_int [of 1] by simp


lemma rnd_zero: "rnd 0 = Finite 0"
  by (simp add: rnd_def)

lemma fmul_one_one: "fmul (Finite 1) (Finite 1) = Finite 1"
  by (simp add: fmul_def rnd_one)

text \<open>Rounding keeps the sign: a float is negative only when the exact number is.\<close>

lemma round_half_even_nonneg: "0 \<le> x \<Longrightarrow> 0 \<le> round_half_even x"
  by (simp add: round_half_even_def Let_def)

lemma rnd_nonneg:
  assumes "0 \<le> q"
  shows "rnd q = PInf \<or> (\<exists>y. rnd q = Finite y \<and> 0 \<le> y)"
proof (cases "q = 0")
  case True
  then show ?thesis by (simp add: rnd_def)
next
  case False
  define e where "e = max (ilog2 \<bar>q\<bar> - 52) (- 1074)"
  define y :: rat where "y = of_int (round_half_even (\<bar>q\<bar> / 2 powi e)) * 2 powi e"
  have "0 \<le> round_half_even (\<bar>q\<bar> / 2 powi e)"
    by (rule round_half_even_nonneg) simp
  then have "0 \<le> y" by (simp add: y_def)
  moreover have "rnd q = (if 2 ^ 1024 \<le> y then PInf else Finite y)"
    using False assms by (simp add: rnd_def Let_def e_def y_def)
  ultimately show ?thesis by auto
qed

section \<open>SimpleRanker: one match per parent, the smallest score, ascending order\<close>

lemma collect_snoc:
  "collect (ms @ [m]) = append_score (cm_parent_id m) (cm_score m) (collect ms)"
  by (simp add: collect_def)

lemma keys_append_score:
  "map fst (append_score p s g) = (if p \<in> set (map fst g) then map fst g else map fst g @ [p])"
  by (induction g) force+

lemma first_seen_snoc:
  "first_seen (xs @ [x]) = (if x \<in> set xs then first_seen xs else first_seen xs @ [x])"
  by (simp add: first_seen_def)

lemma distinct_first_seen: "distinct (first_seen xs)"
  and set_first_seen: "set (first_seen xs) = set xs"
  by (simp_all add: first_seen_def)

text \<open>The groups are the parents in the order in which the matches first name them.\<close>

lemma keys_collect: "map fst (collect ms) = first_seen (map cm_parent_id ms)"
proof (induction ms rule: rev_induct)
  case Nil
  show ?case by (simp add: collect_def first_seen_def)
next
  case (snoc m ms)
  have "set (map fst (collect ms)) = set (map cm_parent_id ms)"
    by (simp add: snoc.IH first_seen_def)
  then show ?case
    by (simp add: collect_snoc keys_append_score first_seen_snoc snoc.IH del: set_map)
qed

lemma lookup_append_score:
  "map_of (append_score p s g) q =
     (if q = p then Some ((case map_of g p of None \<Rightarrow> [] | Some ss \<Rightarrow> ss) @ [s]) else map_of g q)"
  by (induction g) auto

text \<open>The group of a parent holds the scores of its chunks, in the order of the matches.\<close>

lemma lookup_collect:
  "map_of (collect ms) p =
     (if p \<in> cm_parent_id ` set ms
      then Some (map cm_score (filter (\<lambda>m. cm_parent_id m = p) ms)) else None)"
proof (induction ms arbitrary: p rule: rev_induct)
  case Nil
  show ?case by (simp add: collect_def)
next
  case (snoc m ms)
  show ?case
    by (auto simp add: collect_snoc lookup_append_score snoc.IH filter_empty_conv image_iff)
qed

lemma nonempty_append_score:
  "\<forall>x\<in>set g. snd x \<noteq> [] \<Longrightarrow> \<forall>x\<in>set (append_score p s g). snd x \<noteq> []"
  by (induction g) (fastforce split: if_splits)+

lemma groups_nonempty: "\<forall>x\<in>set (collect ms). snd x \<noteq> []"
proof (induction ms rule: rev_induct)
  case Nil
  show ?case by (simp add: collect_def)
next
  case (snoc m ms)
  then show ?case using nonempty_append_score by (simp only: collect_snoc)
qed

lemma py_min_Min: "xs \<noteq> [] \<Longrightarrow> py_min xs = Inr (Min (set xs))"
proof (cases xs)
  case Nil
  then show "xs \<noteq> [] \<Longrightarrow> ?thesis" by simp
next
  case (Cons x ys)
  have "(\<lambda>y m. if y < m then y else m) = (min :: rat \<Rightarrow> rat \<Rightarrow> rat)"
    by (intro ext) (simp add: min_def)
  then show ?thesis using Cons Min.set_eq_fold [of x ys] by simp
qed

text \<open>\<open>min\<close> never raises in \<open>rank\<close>: no group is empty.\<close>

lemma aggregate_total:
  "\<forall>x\<in>set g. snd x \<noteq> [] \<Longrightarrow> aggregate g = Inr (map aggregated g)"
  by (induction g) (auto simp: py_min_Min aggregated_def)

lemma rank_matches_eq:
  "rank_matches ms = Inr (sort_key score_value (map aggregated (collect ms)))"
  using aggregate_total [OF groups_nonempty [of ms]]
  by (simp add: rank_matches_def)

lemma doc_id_aggregated: "map doc_id (map aggregated g) = map fst g"
  by (simp add: aggregated_def new_match_def comp_def)

lemma ids_sort_key: "mset (map doc_id (sort_key f ds)) = mset (map doc_id ds)"
  by (metis mset_map mset_sort)

text \<open>The new matches are in ascending order of their scores.\<close>

lemma rank_matches_sorted: "rank_matches ms = Inr ds \<Longrightarrow> sorted (map score_value ds)"
  by (auto simp: rank_matches_eq)

text \<open>The score of a new match is the smallest score among the chunks of its parent.\<close>

lemma rank_matches_min:
  assumes "rank_matches ms = Inr ds" "d \<in> set ds"
  shows "doc_score d = Some (Min (cm_score ` {m \<in> set ms. cm_parent_id m = doc_id d}))"
proof -
  from assms obtain g where g: "g \<in> set (collect ms)" "d = aggregated g"
    by (auto simp: rank_matches_eq)
  obtain p ss where ps: "g = (p, ss)" by (cases g)
  have "distinct (map fst (collect ms))" by (simp add: keys_collect distinct_first_seen)
  then have "map_of (collect ms) p = Some ss" using g(1) ps by simp
  then have "ss = map cm_score (filter (\<lambda>m. cm_parent_id m = p) ms)"
    by (simp add: lookup_collect split: if_splits)
  then have "set ss = cm_score ` {m \<in> set ms. cm_parent_id m = p}" by auto
  then show ?thesis using g(2) ps by (simp add: aggregated_def new_match_def)
qed

text \<open>
  C1. A query whose matches are (chunk1, parentA, 0.1), (chunk2, parentA, 0.05) and
  (chunk3, parentB, 0.2) leaves \<open>rank\<close> with exactly the matches (parentA, 0.05) and
  (parentB, 0.2), in this order: parentA carries the smaller of its two scores, and the
  smaller score comes first.
\<close>

theorem rank_example:
  "snd (rank self (Some [\<lparr>q_id = q, q_matches =
      [\<lparr>cm_id = ''chunk1'', cm_parent_id = ''parentA'', cm_score = 0.1\<rparr>,
       \<lparr>cm_id = ''chunk2'', cm_parent_id = ''parentA'', cm_score = 0.05\<rparr>,
       \<lparr>cm_id = ''chunk3'', cm_parent_id = ''parentB'', cm_score = 0.2\<rparr>]\<rparr>]))
   = Inr (Some [\<lparr>q_id = q, q_matches =
      [\<lparr>doc_id = ''parentA'', doc_score = Some 0.05, doc_content = []\<rparr>,
       \<lparr>doc_id = ''parentB'', doc_score = Some 0.2, doc_content = []\<rparr>]\<rparr>])"
  by (simp add: rank_def rank_doc_def rank_matches_def collect_def new_match_def score_value_def)

text \<open>
  C7. For every query, whatever its chunk-level matches, \<open>rank\<close> succeeds and replaces
  the match list of the query by a list that has exactly one match for every parent id
  that the old matches name: the ids of the new matches are distinct, they are the parent
  ids of the old matches, and there are as many as there are distinct parents.
\<close>

theorem rank_one_match_per_parent:
  "\<exists>ds. rank_doc d = Inr \<lparr>q_id = q_id d, q_matches = ds\<rparr>
      \<and> distinct (map doc_id ds)
      \<and> set (map doc_id ds) = set (map cm_parent_id (q_matches d))
      \<and> length ds = card (set (map cm_parent_id (q_matches d)))"
proof -
  define ds where "ds = sort_key score_value (map aggregated (collect (q_matches d)))"
  have m: "mset (map doc_id ds) = mset (first_seen (map cm_parent_id (q_matches d)))"
    unfolding ds_def by (simp only: ids_sort_key doc_id_aggregated keys_collect)
  have d: "distinct (map doc_id ds)"
    using m distinct_first_seen by (metis mset_eq_imp_distinct_iff)
  have s: "set (map doc_id ds) = set (map cm_parent_id (q_matches d))"
    using m set_first_seen by (metis mset_eq_setD)
  have "length (map doc_id ds) = card (set (map doc_id ds))"
    using d by (simp only: distinct_card)
  then have l: "length ds = card (set (map cm_parent_id (q_matches d)))"
    using s by simp
  have "rank_doc d = Inr \<lparr>q_id = q_id d, q_matches = ds\<rparr>"
    by (simp add: rank_doc_def rank_matches_eq ds_def)
  then show ?thesis using d s l by blast
qed

section \<open>SimpleRanker: a second call on the same Documents\<close>

lemma rank_doc_ranked: "rank_doc d = Inr (ranked d)"
  by (simp add: rank_doc_def rank_matches_eq ranked_def)

lemma rank_docs_ranked: "rank_docs ds = Inr (map ranked ds)"
  by (induction ds) (simp_all add: rank_doc_ranked)

lemma rank_ranked: "rank self docs = (self, Inr (map_option (map ranked) docs))"
  by (cases docs) (simp_all add: rank_def rank_docs_ranked)

lemma collect_one_parent:
  "\<forall>m\<in>set ms. cm_parent_id m = p \<Longrightarrow> ms \<noteq> [] \<Longrightarrow> collect ms = [(p, map cm_score ms)]"
proof (induction ms rule: rev_induct)
  case Nil
  then show ?case by simp
next
  case (snoc m ms)
  show ?case
  proof (cases "ms = []")
    case True
    then show ?thesis using snoc.prems by (simp add: collect_def)
  next
    case False
    then have "collect ms = [(p, map cm_score ms)]" using snoc by simp
    then show ?thesis using snoc.prems by (simp add: collect_snoc)
  qed
qed

lemma collect_Nil: "collect [] = []"
  by (simp add: collect_def)

lemma ranked_one_parent:
  assumes "\<forall>m\<in>set (q_matches d). cm_parent_id m = ''''"
  shows "ranked d = collapsed d"
proof (cases "q_matches d = []")
  case True
  then show ?thesis by (simp add: ranked_def collapsed_def collect_Nil)
next
  case False
  have "collect (q_matches d) = [('''', map cm_score (q_matches d))]"
    using assms False by (rule collect_one_parent)
  then show ?thesis using False by (simp add: ranked_def collapsed_def aggregated_def)
qed

lemma ranked_no_matches: "q_matches (ranked d) = [] \<longleftrightarrow> q_matches d = []"
proof -
  have "length (q_matches (ranked d)) = length (map fst (collect (q_matches d)))"
    by (simp add: ranked_def)
  also have "\<dots> = length (first_seen (map cm_parent_id (q_matches d)))"
    by (simp only: keys_collect)
  finally have "q_matches (ranked d) = [] \<longleftrightarrow> first_seen (map cm_parent_id (q_matches d)) = []"
    by (metis length_0_conv)
  moreover have "first_seen (map cm_parent_id (q_matches d)) = [] \<longleftrightarrow> q_matches d = []"
    using set_first_seen [of "map cm_parent_id (q_matches d)"] by (metis map_is_Nil_conv set_empty)
  ultimately show ?thesis by simp
qed

lemma ranked_ids: "set (map doc_id (q_matches (ranked d))) = set (map cm_parent_id (q_matches d))"
proof -
  have "mset (map doc_id (q_matches (ranked d))) = mset (first_seen (map cm_parent_id (q_matches d)))"
    unfolding ranked_def by (simp only: query.simps ids_sort_key doc_id_aggregated keys_collect)
  then show ?thesis using set_first_seen by (metis mset_eq_setD)
qed

lemma ranked_score:
  assumes "x \<in> set (q_matches (ranked d))"
  shows "score_value x = Min (cm_score ` {m \<in> set (q_matches d). cm_parent_id m = doc_id x})"
proof -
  have "rank_matches (q_matches d) = Inr (q_matches (ranked d))"
    by (simp add: rank_matches_eq ranked_def)
  from rank_matches_min [OF this assms] show ?thesis by (simp add: score_value_def)
qed

text \<open>The smallest of the aggregated scores is the smallest of all scores.\<close>

lemma Min_ranked_scores:
  assumes "q_matches d \<noteq> []"
  shows "Min (set (map score_value (q_matches (ranked d)))) = Min (set (map cm_score (q_matches d)))"
proof (rule Min_eqI)
  show "finite (set (map score_value (q_matches (ranked d))))" by simp
next
  fix y assume "y \<in> set (map score_value (q_matches (ranked d)))"
  then obtain x where x: "x \<in> set (q_matches (ranked d))" "y = score_value x" by auto
  have "doc_id x \<in> set (map cm_parent_id (q_matches d))"
    using x(1) ranked_ids [of d] by auto
  then have ne: "cm_score ` {m \<in> set (q_matches d). cm_parent_id m = doc_id x} \<noteq> {}" by auto
  have "Min (cm_score ` set (q_matches d))
      \<le> Min (cm_score ` {m \<in> set (q_matches d). cm_parent_id m = doc_id x})"
    using ne by (intro Min_antimono) auto
  then show "Min (set (map cm_score (q_matches d))) \<le> y"
    using ranked_score [OF x(1)] x(2) by simp
next
  define X where "X = Min (set (map cm_score (q_matches d)))"
  have "X \<in> set (map cm_score (q_matches d))"
    unfolding X_def using assms by (intro Min_in) simp_all
  then obtain m0 where m0: "m0 \<in> set (q_matches d)" "X = cm_score m0" by auto
  have "cm_parent_id m0 \<in> set (map doc_id (q_matches (ranked d)))"
    using m0(1) ranked_ids [of d] by auto
  then obtain x where x: "x \<in> set (q_matches (ranked d))" "doc_id x = cm_parent_id m0" by auto
  let ?G = "cm_score ` {m \<in> set (q_matches d). cm_parent_id m = doc_id x}"
  have in_G: "X \<in> ?G" using m0 x(2) by auto
  have "Min ?G \<le> X" using in_G by (intro Min_le) simp_all
  moreover have "X \<le> Min ?G"
    unfolding X_def using in_G by (simp only: set_map) (intro Min_antimono, auto)
  ultimately have "score_value x = X" using ranked_score [OF x(1)] by simp
  moreover have "score_value x \<in> set (map score_value (q_matches (ranked d)))"
    using x(1) by simp
  ultimately show "Min (set (map cm_score (q_matches d))) \<in> set (map score_value (q_matches (ranked d)))"
    by (simp only: X_def)
qed

lemma reread_parents: "\<forall>m\<in>set (q_matches (reread d)). cm_parent_id m = ''''"
  by (simp add: reread_def as_chunk_def)

lemma ranked_reread_ranked: "ranked (reread (ranked d)) = collapsed d"
proof -
  have "ranked (reread (ranked d)) = collapsed (reread (ranked d))"
    using reread_parents by (rule ranked_one_parent)
  also have "\<dots> = collapsed d"
  proof (cases "q_matches d = []")
    case True
    then have "q_matches (ranked d) = []" by (simp add: ranked_no_matches)
    then show ?thesis using True by (simp add: collapsed_def reread_def ranked_def)
  next
    case False
    then have ne: "q_matches (ranked d) \<noteq> []" by (simp add: ranked_no_matches)
    have "map cm_score (q_matches (reread (ranked d))) = map score_value (q_matches (ranked d))"
      by (simp add: reread_def as_chunk_def comp_def)
    then have "Min (set (map cm_score (q_matches (reread (ranked d)))))
        = Min (set (map cm_score (q_matches d)))"
      using Min_ranked_scores [OF False] by simp
    moreover have "q_id (reread (ranked d)) = q_id d" by (simp add: reread_def ranked_def)
    moreover have "q_matches (reread (ranked d)) \<noteq> []" using ne by (simp add: reread_def)
    ultimately show ?thesis using False by (simp add: collapsed_def)
  qed
  finally show ?thesis .
qed

lemma rank_twice_eq: "rank_twice self docs = (self, Inr (map_option (map collapsed) docs))"
  by (cases docs)
     (simp_all add: rank_twice_def rank_again_def rank_ranked ranked_reread_ranked comp_def
        option.map_comp)

lemma ranked_reread_collapsed: "ranked (reread (collapsed d)) = collapsed d"
  by (simp add: ranked_def reread_def collapsed_def as_chunk_def collect_def aggregated_def
      new_match_def score_value_def)

lemma rank_again_collapsed:
  "rank_again self (map_option (map collapsed) docs) = (self, Inr (map_option (map collapsed) docs))"
  by (cases docs) (simp_all add: rank_again_def rank_ranked ranked_reread_collapsed comp_def)

lemma collapsed_eq_ranked:
  "collapsed d = ranked d \<longleftrightarrow> (\<forall>m\<in>set (q_matches d). cm_parent_id m = '''')"
proof
  assume eq: "collapsed d = ranked d"
  have "set (map doc_id (q_matches (collapsed d))) \<subseteq> {''''}"
    by (simp add: collapsed_def new_match_def)
  then have "set (map cm_parent_id (q_matches d)) \<subseteq> {''''}"
    using ranked_ids [of d] eq by simp
  then show "\<forall>m\<in>set (q_matches d). cm_parent_id m = ''''" by auto
next
  assume "\<forall>m\<in>set (q_matches d). cm_parent_id m = ''''"
  then show "collapsed d = ranked d" by (simp add: ranked_one_parent)
qed

text \<open>
  C8, as stated: \<open>rank\<close> is idempotent, two applications give what one application
  gives. \<open>rank\<close> replaces the matches in place by parent-level matches, whose \<open>parent_id\<close>
  is empty, and a second call puts them all into the group of the empty parent id: on the
  example the first call leaves (parentA, 0.05) and (parentB, 0.2), the second call leaves
  one match with the id \<open>''\<close> and the score 0.05.
\<close>

theorem rank_twice_counterexample:
  "rank SimpleRanker_init (Some [\<lparr>q_id = ''query'', q_matches = example_matches\<rparr>])
     = (SimpleRanker_init, Inr (Some [\<lparr>q_id = ''query'', q_matches =
         [\<lparr>doc_id = ''parentA'', doc_score = Some 0.05, doc_content = []\<rparr>,
          \<lparr>doc_id = ''parentB'', doc_score = Some 0.2, doc_content = []\<rparr>]\<rparr>]))
   \<and> rank_twice SimpleRanker_init (Some [\<lparr>q_id = ''query'', q_matches = example_matches\<rparr>])
     = (SimpleRanker_init, Inr (Some [\<lparr>q_id = ''query'', q_matches =
         [\<lparr>doc_id = '''', doc_score = Some 0.05, doc_content = []\<rparr>]\<rparr>]))
   \<and> rank_twice SimpleRanker_init (Some [\<lparr>q_id = ''query'', q_matches = example_matches\<rparr>])
     \<noteq> rank SimpleRanker_init (Some [\<lparr>q_id = ''query'', q_matches = example_matches\<rparr>])"
  by (simp add: rank_twice_def rank_again_def reread_def as_chunk_def rank_def rank_doc_def
      rank_matches_def collect_def new_match_def score_value_def example_matches_def)

text \<open>
  C8, amended: two calls of \<open>rank\<close> on the same Documents leave, for every query, a
  single match with the empty id and the smallest of all the chunk scores (and no match
  for a query without matches). This is what one call leaves exactly when every chunk-level
  match of every query has the empty parent id. From the second call on nothing changes
  any more: a further call leaves the collapsed matches as they are.
\<close>

theorem rank_twice_collapses:
  "rank_twice self docs = (self, Inr (map_option (map collapsed) docs))
   \<and> (rank_twice self docs = rank self docs
        \<longleftrightarrow> (\<forall>d\<in>set (queries_of docs). \<forall>m\<in>set (q_matches d). cm_parent_id m = ''''))
   \<and> rank_again self (map_option (map collapsed) docs)
        = (self, Inr (map_option (map collapsed) docs))"
proof -
  have "map collapsed ds = map ranked ds
      \<longleftrightarrow> (\<forall>d\<in>set ds. \<forall>m\<in>set (q_matches d). cm_parent_id m = '''')" for ds
    using collapsed_eq_ranked by (induction ds) auto
  then have "rank_twice self docs = rank self docs
      \<longleftrightarrow> (\<forall>d\<in>set (queries_of docs). \<forall>m\<in>set (q_matches d). cm_parent_id m = '''')"
    by (cases docs) (simp_all add: rank_twice_eq rank_ranked queries_of_def)
  then show ?thesis using rank_twice_eq rank_again_collapsed by simp
qed

theorem rank_twice_collapses_witness:
  "cm_parent_id \<lparr>cm_id = ''chunk1'', cm_parent_id = '''', cm_score = 0.1\<rparr> = ''''
   \<and> cm_parent_id \<lparr>cm_id = ''chunk2'', cm_parent_id = '''', cm_score = 0.05\<rparr> = ''''
   \<and> rank_twice SimpleRanker_init (Some [\<lparr>q_id = ''query'', q_matches =
        [\<lparr>cm_id = ''chunk1'', cm_parent_id = '''', cm_score = 0.1\<rparr>,
         \<lparr>cm_id = ''chunk2'', cm_parent_id = '''', cm_score = 0.05\<rparr>]\<rparr>])
     = rank SimpleRanker_init (Some [\<lparr>q_id = ''query'', q_matches =
        [\<lparr>cm_id = ''chunk1'', cm_parent_id = '''', cm_score = 0.1\<rparr>,
         \<lparr>cm_id = ''chunk2'', cm_parent_id = '''', cm_score = 0.05\<rparr>]\<rparr>])
   \<and> rank_twice SimpleRanker_init (Some [\<lparr>q_id = ''query'', q_matches =
        [\<lparr>cm_id = ''chunk1'', cm_parent_id = '''', cm_score = 0.1\<rparr>,
         \<lparr>cm_id = ''chunk2'', cm_parent_id = '''', cm_score = 0.05\<rparr>]\<rparr>])
     = (SimpleRanker_init, Inr (Some [\<lparr>q_id = ''query'', q_matches =
         [\<lparr>doc_id = '''', doc_score = Some 0.05, doc_content = []\<rparr>]\<rparr>]))"
proof -
  have p: "\<forall>d\<in>set (queries_of (Some [\<lparr>q_id = ''query'', q_matches =
        [\<lparr>cm_id = ''chunk1'', cm_parent_id = '''', cm_score = 0.1\<rparr>,
         \<lparr>cm_id = ''chunk2'', cm_parent_id = '''', cm_score = 0.05\<rparr>]\<rparr>])).
      \<forall>m\<in>set (q_matches d). cm_parent_id m = ''''"
    by (simp add: queries_of_def)
  note t = rank_twice_collapses [of SimpleRanker_init "Some [\<lparr>q_id = ''query'', q_matches =
        [\<lparr>cm_id = ''chunk1'', cm_parent_id = '''', cm_score = 0.1\<rparr>,
         \<lparr>cm_id = ''chunk2'', cm_parent_id = '''', cm_score = 0.05\<rparr>]\<rparr>]"]
  have a: "rank_twice SimpleRanker_init (Some [\<lparr>q_id = ''query'', q_matches =
        [\<lparr>cm_id = ''chunk1'', cm_parent_id = '''', cm_score = 0.1\<rparr>,
         \<lparr>cm_id = ''chunk2'', cm_parent_id = '''', cm_score = 0.05\<rparr>]\<rparr>])
     = (SimpleRanker_init, Inr (Some [\<lparr>q_id = ''query'', q_matches =
         [\<lparr>doc_id = '''', doc_score = Some 0.05, doc_content = []\<rparr>]\<rparr>]))"
    using t by (simp add: collapsed_def new_match_def)
  have b: "rank_twice SimpleRanker_init (Some [\<lparr>q_id = ''query'', q_matches =
        [\<lparr>cm_id = ''chunk1'', cm_parent_id = '''', cm_score = 0.1\<rparr>,
         \<lparr>cm_id = ''chunk2'', cm_parent_id = '''', cm_score = 0.05\<rparr>]\<rparr>])
     = rank SimpleRanker_init (Some [\<lparr>q_id = ''query'', q_matches =
        [\<lparr>cm_id = ''chunk1'', cm_parent_id = '''', cm_score = 0.1\<rparr>,
         \<lparr>cm_id = ''chunk2'', cm_parent_id = '''', cm_score = 0.05\<rparr>]\<rparr>])"
    using t p by blast
  show ?thesis using a b by simp
qed

section \<open>LMDBStorage: what \<open>index\<close> stores and what \<open>search\<close> leaves in the matches\<close>

lemma put_docs_valid:
  "\<forall>d\<in>set ds. valid_key (doc_id d) \<Longrightarrow> put_docs t ds = Inr (fold (\<lambda>d t. t(doc_id d \<mapsto> d)) ds t)"
  by (induction ds arbitrary: t) (simp_all add: transaction_put_def)

lemma put_docs_invalid:
  "\<exists>d\<in>set ds. \<not> valid_key (doc_id d) \<Longrightarrow> put_docs t ds = Inl BadValsizeError"
  by (induction ds arbitrary: t) (auto simp: transaction_put_def)

text \<open>A call of \<open>index\<close> stores all its Documents, or none of them.\<close>

lemma index_all_or_nothing:
  "index db (Some ds) =
     (if \<forall>d\<in>set ds. valid_key (doc_id d)
      then (fold (\<lambda>d t. t(doc_id d \<mapsto> d)) ds db, None)
      else (db, Some BadValsizeError))"
  using put_docs_valid [of ds db] put_docs_invalid [of ds db]
  by (auto simp: index_def)

lemma example_store_eq:
  "example_store = [''parentB'' \<mapsto> \<lparr>doc_id = ''parentB'', doc_score = None, doc_content = ''image B''\<rparr>]"
  by (simp add: example_store_def index_def transaction_put_def valid_key_def)

lemma present_parentB: "present example_store ''parentB''"
  and absent_parentA: "\<not> present example_store ''parentA''"
  by (simp_all add: present_def example_store_eq valid_key_def)

lemma search_matches_present:
  "present db (doc_id m) \<Longrightarrow>
   search_matches db (m # rest) =
     (resolved db m # fst (search_matches db rest), snd (search_matches db rest))"
  by (auto simp: present_def transaction_get_def from_bytes_def resolved_def copy_from_def
      split: prod.splits)

lemma search_matches_absent:
  "\<not> present db (doc_id m) \<Longrightarrow>
   search_matches db (m # rest) = (m # rest, Some (absent_error (doc_id m)))"
  by (auto simp: present_def transaction_get_def from_bytes_def absent_error_def)

text \<open>The loop goes through the matches that are present and resolves them.\<close>

lemma search_matches_append:
  "\<forall>m\<in>set pre. present db (doc_id m) \<Longrightarrow>
   search_matches db (pre @ rest) =
     (map (resolved db) pre @ fst (search_matches db rest), snd (search_matches db rest))"
  by (induction pre) (simp_all add: search_matches_present del: search_matches.simps(2))

lemma search_matches_all_present:
  "\<forall>m\<in>set ms. present db (doc_id m) \<Longrightarrow> search_matches db ms = (map (resolved db) ms, None)"
  using search_matches_append [of ms db "[]"] by simp

lemma search_matches_first_absent:
  "\<forall>m\<in>set pre. present db (doc_id m) \<Longrightarrow> \<not> present db (doc_id a) \<Longrightarrow>
   search_matches db (pre @ a # post)
     = (map (resolved db) pre @ a # post, Some (absent_error (doc_id a)))"
  by (simp add: search_matches_append search_matches_absent del: search_matches.simps(2))

lemma search_matches_nth:
  assumes "i < length ms" "\<forall>m\<in>set (take i ms). present db (doc_id m)" "present db (doc_id (ms ! i))"
  shows "fst (search_matches db ms) ! i = resolved db (ms ! i)"
proof -
  have ms: "ms = take i ms @ ms ! i # drop (Suc i) ms"
    using assms(1) by (simp add: id_take_nth_drop)
  have "fst (search_matches db (take i ms @ ms ! i # drop (Suc i) ms)) ! i = resolved db (ms ! i)"
    using assms
    by (simp add: search_matches_append search_matches_present nth_append
        del: search_matches.simps(2))
  then show ?thesis using ms by simp
qed

lemma search_matches_length: "length (fst (search_matches db ms)) = length ms"
  by (induction ms) (auto simp: Let_def split: sum.splits prod.splits)

text \<open>The first query of a request, after the call.\<close>

lemma search_docs_Cons:
  "fst (search_docs db (d # rest)) =
     d\<lparr>q_matches := fst (search_matches db (q_matches d))\<rparr>
       # (if snd (search_matches db (q_matches d)) = None then fst (search_docs db rest) else rest)"
  by (auto split: prod.splits option.splits)

lemma search_docs_length: "length (fst (search_docs db ds)) = length ds"
  by (induction ds) (auto split: prod.splits option.splits)

lemma search_docs_resolved:
  "\<forall>m\<in>set (q_matches d). present db (doc_id m) \<Longrightarrow>
   search_docs db (d # rest) =
     (resolve_query db d # fst (search_docs db rest), snd (search_docs db rest))"
  by (simp add: search_matches_all_present resolve_query_def split: prod.splits)

lemma search_docs_append:
  "\<forall>d\<in>set pre. \<forall>m\<in>set (q_matches d). present db (doc_id m) \<Longrightarrow>
   search_docs db (pre @ rest) =
     (map (resolve_query db) pre @ fst (search_docs db rest), snd (search_docs db rest))"
  by (induction pre) (simp_all add: search_docs_resolved del: search_docs.simps(2))

lemma search_docs_all_present:
  "\<forall>d\<in>set ds. \<forall>m\<in>set (q_matches d). present db (doc_id m) \<Longrightarrow>
   search_docs db ds = (map (resolve_query db) ds, None)"
  using search_docs_append [of ds db "[]"] by simp

lemma search_docs_first_absent:
  assumes "\<forall>d\<in>set pre. \<forall>m\<in>set (q_matches d). present db (doc_id m)"
    "\<forall>m\<in>set mpre. present db (doc_id m)" "\<not> present db (doc_id a)"
  shows "search_docs db (pre @ d\<lparr>q_matches := mpre @ a # mpost\<rparr> # post)
     = (map (resolve_query db) pre @ d\<lparr>q_matches := map (resolved db) mpre @ a # mpost\<rparr> # post,
        Some (absent_error (doc_id a)))"
  using assms(2,3)
  by (simp add: search_docs_append [OF assms(1)] search_matches_first_absent)

lemma search_docs_nth:
  assumes "q < length ds" "\<forall>d\<in>set (take q ds). \<forall>m\<in>set (q_matches d). present db (doc_id m)"
  shows "fst (search_docs db ds) ! q = (ds ! q)\<lparr>q_matches := fst (search_matches db (q_matches (ds ! q)))\<rparr>"
proof -
  have ds: "ds = take q ds @ ds ! q # drop (Suc q) ds"
    using assms(1) by (simp add: id_take_nth_drop)
  have "fst (search_docs db (take q ds @ ds ! q # drop (Suc q) ds)) ! q
      = (ds ! q)\<lparr>q_matches := fst (search_matches db (q_matches (ds ! q)))\<rparr>"
    using assms(1)
    by (simp add: search_docs_append [OF assms(2)] search_docs_Cons nth_append del: search_docs.simps)
  then show ?thesis using ds by simp
qed

text \<open>
  C5, as stated: a match whose parent is in the store keeps its id and its aggregated
  score. It does not keep the score: \<open>copy_from\<close> overwrites every field with the stored
  copy, and \<open>search\<close> puts back the id only. The match (parentB, 0.2) of the example,
  resolved against a store that holds the image of parentB, has no score afterwards.
\<close>

theorem search_score_counterexample:
  "search example_store (Some [\<lparr>q_id = ''query'', q_matches =
       [\<lparr>doc_id = ''parentB'', doc_score = Some 0.2, doc_content = []\<rparr>]\<rparr>])
     = (Some [\<lparr>q_id = ''query'', q_matches =
         [\<lparr>doc_id = ''parentB'', doc_score = None, doc_content = ''image B''\<rparr>]\<rparr>], None)
   \<and> present example_store ''parentB''
   \<and> doc_score \<lparr>doc_id = ''parentB'', doc_score = None, doc_content = ''image B''\<rparr> \<noteq> Some 0.2"
  by (simp add: search_def example_store_eq transaction_get_def from_bytes_def copy_from_def
      valid_key_def present_def)

text \<open>
  C5, amended: a match whose parent is in the store, and that the loops of \<open>search\<close>
  reach (every match before it, in the queries before its query and before it in its own
  query, is present in the store), is after the search the stored copy under the id that
  the match had: its id is unchanged, and its score, like every other field, is the one
  of the stored copy.
\<close>

theorem search_keeps_id_takes_stored_score:
  assumes "q < length ds" "i < length (q_matches (ds ! q))"
    "\<forall>d\<in>set (take q ds). \<forall>m\<in>set (q_matches d). present db (doc_id m)"
    "\<forall>m\<in>set (take i (q_matches (ds ! q))). present db (doc_id m)"
    "valid_key (doc_id (q_matches (ds ! q) ! i))"
    "db (doc_id (q_matches (ds ! q) ! i)) = Some s"
  shows "\<exists>ds' e. search db (Some ds) = (Some ds', e) \<and> length ds' = length ds
    \<and> length (q_matches (ds' ! q)) = length (q_matches (ds ! q))
    \<and> q_matches (ds' ! q) ! i = s\<lparr>doc_id := doc_id (q_matches (ds ! q) ! i)\<rparr>
    \<and> doc_id (q_matches (ds' ! q) ! i) = doc_id (q_matches (ds ! q) ! i)
    \<and> doc_score (q_matches (ds' ! q) ! i) = doc_score s"
proof -
  define ds' where "ds' = fst (search_docs db ds)"
  have s: "search db (Some ds) = (Some ds', snd (search_docs db ds))"
    by (simp add: search_def ds'_def split: prod.splits)
  have len: "length ds' = length ds" by (simp add: ds'_def search_docs_length)
  have q: "q_matches (ds' ! q) = fst (search_matches db (q_matches (ds ! q)))"
    unfolding ds'_def by (simp add: search_docs_nth [OF assms(1,3)])
  have p: "present db (doc_id (q_matches (ds ! q) ! i))"
    using assms(5,6) by (simp add: present_def)
  have "q_matches (ds' ! q) ! i = resolved db (q_matches (ds ! q) ! i)"
    unfolding q by (rule search_matches_nth [OF assms(2,4) p])
  then have "q_matches (ds' ! q) ! i = s\<lparr>doc_id := doc_id (q_matches (ds ! q) ! i)\<rparr>"
    using assms(6) by (simp add: resolved_def)
  then show ?thesis using s len q by (simp add: search_matches_length)
qed

theorem search_keeps_id_takes_stored_score_witness:
  "(1::nat) < length [\<lparr>q_id = ''first'', q_matches =
         [\<lparr>doc_id = ''parentB'', doc_score = Some 0.3, doc_content = []\<rparr>]\<rparr>,
       \<lparr>q_id = ''second'', q_matches =
         [\<lparr>doc_id = ''parentB'', doc_score = Some 0.1, doc_content = []\<rparr>,
          \<lparr>doc_id = ''parentB'', doc_score = Some 0.2, doc_content = []\<rparr>]\<rparr>]
   \<and> present example_store ''parentB''
   \<and> example_store ''parentB''
       = Some \<lparr>doc_id = ''parentB'', doc_score = None, doc_content = ''image B''\<rparr>
   \<and> (\<exists>ds' e. search example_store (Some [\<lparr>q_id = ''first'', q_matches =
         [\<lparr>doc_id = ''parentB'', doc_score = Some 0.3, doc_content = []\<rparr>]\<rparr>,
       \<lparr>q_id = ''second'', q_matches =
         [\<lparr>doc_id = ''parentB'', doc_score = Some 0.1, doc_content = []\<rparr>,
          \<lparr>doc_id = ''parentB'', doc_score = Some 0.2, doc_content = []\<rparr>]\<rparr>]) = (Some ds', e)
       \<and> doc_id (q_matches (ds' ! 1) ! 1) = ''parentB''
       \<and> doc_score (q_matches (ds' ! 1) ! 1) = None)"
proof -
  let ?ds = "[\<lparr>q_id = ''first'', q_matches =
         [\<lparr>doc_id = ''parentB'', doc_score = Some 0.3, doc_content = []\<rparr>]\<rparr>,
       \<lparr>q_id = ''second'', q_matches =
         [\<lparr>doc_id = ''parentB'', doc_score = Some 0.1, doc_content = []\<rparr>,
          \<lparr>doc_id = ''parentB'', doc_score = Some 0.2, doc_content = []\<rparr>]\<rparr>]"
  have h: "(1::nat) < length ?ds" "(1::nat) < length (q_matches (?ds ! 1))"
    "\<forall>d\<in>set (take 1 ?ds). \<forall>m\<in>set (q_matches d). present example_store (doc_id m)"
    "\<forall>m\<in>set (take 1 (q_matches (?ds ! 1))). present example_store (doc_id m)"
    "valid_key (doc_id (q_matches (?ds ! 1) ! 1))"
    "example_store (doc_id (q_matches (?ds ! 1) ! 1))
       = Some \<lparr>doc_id = ''parentB'', doc_score = None, doc_content = ''image B''\<rparr>"
    by (simp_all add: example_store_eq valid_key_def present_def)
  have e: "example_store ''parentB''
       = Some \<lparr>doc_id = ''parentB'', doc_score = None, doc_content = ''image B''\<rparr>"
    by (simp add: example_store_eq)
  from search_keeps_id_takes_stored_score [OF h]
  obtain ds' e where "search example_store (Some ?ds) = (Some ds', e)"
    "doc_id (q_matches (ds' ! 1) ! 1) = ''parentB''" "doc_score (q_matches (ds' ! 1) ! 1) = None"
    by auto
  then show ?thesis using h(1) present_parentB e by blast
qed

text \<open>The empty id, which the ranker gives to a parent without id, is no key of LMDB.\<close>

lemma search_empty_id:
  "search db (Some [\<lparr>q_id = q, q_matches = [\<lparr>doc_id = '''', doc_score = s, doc_content = c\<rparr>]\<rparr>])
     = (Some [\<lparr>q_id = q, q_matches = [\<lparr>doc_id = '''', doc_score = s, doc_content = c\<rparr>]\<rparr>],
        Some BadValsizeError)"
  by (simp add: search_def transaction_get_def valid_key_def)

text \<open>
  C6, as stated: with a parent absent from the store, the search reports one failure and
  still resolves every match whose parent is present. In the example the matches are
  parentA (absent) and parentB (present): the search raises a TypeError at parentA and
  leaves the match of parentB as it was, unresolved.
\<close>

theorem search_absent_counterexample:
  "search example_store (Some [\<lparr>q_id = ''query'', q_matches = example_ranked\<rparr>])
     = (Some [\<lparr>q_id = ''query'', q_matches = example_ranked\<rparr>], Some TypeError)
   \<and> present example_store (doc_id (example_ranked ! 1))
   \<and> example_ranked ! 1 \<noteq> resolved example_store (example_ranked ! 1)"
  by (simp add: search_def example_store_eq example_ranked_def transaction_get_def from_bytes_def
      valid_key_def present_def resolved_def)

text \<open>
  C6, amended: when every match of every query is present in the store, \<open>search\<close>
  resolves every match and raises nothing. Otherwise it raises one exception, at the
  first match, in the order of the queries and of their matches, that is not present: a
  TypeError when the id is a key without an entry, \<open>lmdb.BadValsizeError\<close> when the id is
  no key of LMDB (empty or longer than 511 bytes). The matches before that one are
  resolved; that one and all the matches after it, in its query and in the queries after
  it, are left as they were.
\<close>

theorem search_stops_at_first_absent:
  "((\<forall>d\<in>set ds. \<forall>m\<in>set (q_matches d). present db (doc_id m))
      \<longrightarrow> search db (Some ds) = (Some (map (resolve_query db) ds), None))
   \<and> ((\<forall>d\<in>set pre. \<forall>m\<in>set (q_matches d). present db (doc_id m))
        \<and> (\<forall>m\<in>set mpre. present db (doc_id m)) \<and> \<not> present db (doc_id a)
      \<longrightarrow> search db (Some (pre @ d\<lparr>q_matches := mpre @ a # mpost\<rparr> # post))
            = (Some (map (resolve_query db) pre
                     @ d\<lparr>q_matches := map (resolved db) mpre @ a # mpost\<rparr> # post),
               Some (if valid_key (doc_id a) then TypeError else BadValsizeError)))"
  using search_docs_all_present [of ds db] search_docs_first_absent [where pre = pre and db = db and mpre = mpre and a = a and d = d
      and mpost = mpost and post = post]
  by (simp add: search_def absent_error_def)

theorem search_stops_at_first_absent_witness:
  "search example_store (Some [\<lparr>q_id = ''first'', q_matches =
         [\<lparr>doc_id = ''parentB'', doc_score = Some 0.3, doc_content = []\<rparr>]\<rparr>])
     = (Some [\<lparr>q_id = ''first'', q_matches =
         [\<lparr>doc_id = ''parentB'', doc_score = None, doc_content = ''image B''\<rparr>]\<rparr>], None)
   \<and> search example_store (Some
       [\<lparr>q_id = ''first'', q_matches =
          [\<lparr>doc_id = ''parentB'', doc_score = Some 0.3, doc_content = []\<rparr>]\<rparr>,
        \<lparr>q_id = ''second'', q_matches =
          [\<lparr>doc_id = ''parentB'', doc_score = Some 0.2, doc_content = []\<rparr>,
           \<lparr>doc_id = ''parentA'', doc_score = Some 0.05, doc_content = []\<rparr>,
           \<lparr>doc_id = ''parentB'', doc_score = Some 0.4, doc_content = []\<rparr>]\<rparr>,
        \<lparr>q_id = ''third'', q_matches =
          [\<lparr>doc_id = ''parentB'', doc_score = Some 0.5, doc_content = []\<rparr>]\<rparr>])
     = (Some
       [\<lparr>q_id = ''first'', q_matches =
          [\<lparr>doc_id = ''parentB'', doc_score = None, doc_content = ''image B''\<rparr>]\<rparr>,
        \<lparr>q_id = ''second'', q_matches =
          [\<lparr>doc_id = ''parentB'', doc_score = None, doc_content = ''image B''\<rparr>,
           \<lparr>doc_id = ''parentA'', doc_score = Some 0.05, doc_content = []\<rparr>,
           \<lparr>doc_id = ''parentB'', doc_score = Some 0.4, doc_content = []\<rparr>]\<rparr>,
        \<lparr>q_id = ''third'', q_matches =
          [\<lparr>doc_id = ''parentB'', doc_score = Some 0.5, doc_content = []\<rparr>]\<rparr>], Some TypeError)"
  using search_stops_at_first_absent [where db = example_store
      and ds = "[\<lparr>q_id = ''first'', q_matches =
          [\<lparr>doc_id = ''parentB'', doc_score = Some 0.3, doc_content = []\<rparr>]\<rparr>]"
      and pre = "[\<lparr>q_id = ''first'', q_matches =
          [\<lparr>doc_id = ''parentB'', doc_score = Some 0.3, doc_content = []\<rparr>]\<rparr>]"
      and mpre = "[\<lparr>doc_id = ''parentB'', doc_score = Some 0.2, doc_content = []\<rparr>]"
      and a = "\<lparr>doc_id = ''parentA'', doc_score = Some 0.05, doc_content = []\<rparr>"
      and d = "\<lparr>q_id = ''second'', q_matches = []\<rparr>"
      and mpost = "[\<lparr>doc_id = ''parentB'', doc_score = Some 0.4, doc_content = []\<rparr>]"
      and post = "[\<lparr>q_id = ''third'', q_matches =
          [\<lparr>doc_id = ''parentB'', doc_score = Some 0.5, doc_content = []\<rparr>]\<rparr>]"]
  by (simp add: present_parentB absent_parentA resolve_query_def resolved_def)
     (simp add: example_store_eq valid_key_def)

section \<open>TagsHasher: what \<open>_any_hash\<close> returns and raises\<close>

lemmas int_str_defs = int_of_str_def num_strip_def num_isspace_def split_sign_def
  is_digit_def dec_value_def lower_def lower_char_def strip_def py_isspace_def

lemmas str_defs = int_str_defs float_of_str_def exponent_of_str_def

lemma fneg_rnd: "is_negative (PyFloat (rnd q)) \<Longrightarrow> q < 0"
proof (rule ccontr)
  assume n: "is_negative (PyFloat (rnd q))" and "\<not> q < 0"
  then have "0 \<le> q" by simp
  from rnd_nonneg [OF this] n show False by (auto simp: is_negative_def)
qed

lemma fneg_fmul:
  "is_negative (PyFloat (fmul a b)) \<Longrightarrow> is_negative (PyFloat a) \<or> is_negative (PyFloat b)"
proof (cases a; cases b)
  fix x y assume ab: "a = Finite x" "b = Finite y" and n: "is_negative (PyFloat (fmul a b))"
  then have "x * y < 0" using fneg_rnd [of "x * y"] by (simp add: fmul_def)
  then have "x < 0 \<or> y < 0" by (auto simp: mult_less_0_iff)
  then show ?thesis using ab by (auto simp: is_negative_def)
qed (auto simp: fmul_def is_negative_def split: if_splits)

lemma neg_to_f64: "is_negative (PyFloat (to_f64 x)) \<Longrightarrow> is_negative x"
proof (cases x)
  case (PyInt n)
  assume "is_negative (PyFloat (to_f64 x))"
  then have "(of_int n :: rat) < 0" using PyInt fneg_rnd [of "of_int n"] by (simp add: to_f64_def)
  then show ?thesis using PyInt by (simp add: is_negative_def)
next
  case (PyFloat f)
  assume "is_negative (PyFloat (to_f64 x))"
  then show ?thesis using PyFloat by (simp add: to_f64_def)
qed

lemma neg_py_mul: "is_negative (py_mul x y) \<Longrightarrow> is_negative x \<or> is_negative y"
proof (cases "\<exists>a b. x = PyInt a \<and> y = PyInt b")
  case True
  then obtain a b where ab: "x = PyInt a" "y = PyInt b" by blast
  assume "is_negative (py_mul x y)"
  then have "a * b < 0" using ab by (simp add: py_mul_def is_negative_def)
  then have "a < 0 \<or> b < 0" by (auto simp: mult_less_0_iff)
  then show ?thesis using ab by (simp add: is_negative_def)
next
  case False
  then have m: "py_mul x y = PyFloat (fmul (to_f64 x) (to_f64 y))"
    by (cases x; cases y) (simp_all add: py_mul_def)
  assume "is_negative (py_mul x y)"
  then show ?thesis using m fneg_fmul [of "to_f64 x" "to_f64 y"] neg_to_f64 [of x] neg_to_f64 [of y]
    by auto
qed

lemma neg_np_sign: "is_negative (np_sign x) \<Longrightarrow> is_negative x"
  by (cases x) (auto simp: np_sign_def is_negative_def sgn_if split: f64.splits if_splits)

text \<open>The remainder of a division by a positive number is not negative.\<close>

lemma fmod_lower:
  fixes v w :: rat
  assumes "0 < w"
  shows "- w < v - w * of_int (trunc (v / w))"
proof (cases "0 \<le> v / w")
  case True
  then have "of_int (trunc (v / w)) \<le> v / w" by (simp add: trunc_def)
  then have "w * of_int (trunc (v / w)) \<le> v"
    using assms by (simp add: pos_le_divide_eq mult.commute)
  then show ?thesis using assms by linarith
next
  case False
  then have "of_int (trunc (v / w)) < v / w + 1" by (simp add: trunc_def) linarith
  then have "of_int (trunc (v / w)) * w < (v / w + 1) * w"
    using assms by (simp only: mult_less_cancel_right_pos)
  then have "w * of_int (trunc (v / w)) < v + w"
    using assms by (simp add: algebra_simps)
  then show ?thesis by linarith
qed

lemma float_rem_nonneg: "0 < w \<Longrightarrow> \<not> is_negative (PyFloat (float_rem f w))"
proof (cases f)
  case (Finite v)
  assume w: "0 < w"
  define m where "m = v - w * of_int (trunc (v / w))"
  have lower: "0 \<le> m + w" using fmod_lower [OF w, of v] by (simp add: m_def)
  have "\<not> is_negative (PyFloat (rnd (m + w)))" using fneg_rnd [of "m + w"] lower by auto
  then show ?thesis using Finite w
    by (auto simp: float_rem_def Let_def m_def [symmetric] is_negative_def)
qed (simp_all add: float_rem_def is_negative_def)

lemma py_mod_nonneg: "0 < m \<Longrightarrow> py_mod a m = Inr a' \<Longrightarrow> \<not> is_negative a'"
proof (cases a)
  case (PyInt n)
  assume m: "0 < m" and a: "py_mod a m = Inr a'"
  have "\<not> n mod m < 0" using m by (simp add: not_less)
  then show ?thesis using PyInt a m by (auto simp: py_mod_def is_negative_def)
next
  case (PyFloat f)
  assume m: "0 < m" and a: "py_mod a m = Inr a'"
  from a PyFloat obtain wx where wx: "rnd (of_int m) = Finite wx" "wx \<noteq> 0" "a' = PyFloat (float_rem f wx)"
    by (auto simp: py_mod_def int_to_f64_def split: f64.splits sum.splits if_splits)
  have "0 \<le> (of_int m :: rat)" using m by simp
  from rnd_nonneg [OF this] wx have "0 < wx" by auto
  then show ?thesis using wx float_rem_nonneg by simp
qed

lemma any_hash_negative:
  "any_hash self v = Inr y \<Longrightarrow> is_negative y \<Longrightarrow> parses_negative v"
  by (auto simp: any_hash_def parses_negative_def is_negative_def Let_def
      split: sum.splits if_splits pyval.splits)

lemma any_hash_plain_text:
  "plain_text s \<Longrightarrow> any_hash self (VStr s) = Inr (PyInt (int (hash self (VStr (strip s)))))"
  by (simp add: any_hash_def plain_text_def Let_def)

text \<open>\<open>_any_hash\<close> of a string never raises.\<close>

lemma int_of_str_error: "int_of_str s = Inl e \<Longrightarrow> e = ValueError"
  by (auto simp: int_of_str_def split: option.splits prod.splits if_splits)

lemma float_of_str_error: "float_of_str s = Inl e \<Longrightarrow> e = ValueError"
  by (auto simp: float_of_str_def Let_def split: option.splits prod.splits if_splits)

lemma any_hash_str: "\<exists>h. any_hash self (VStr s) = Inr h"
  using int_of_str_error [of s] float_of_str_error [of s]
  by (auto simp: any_hash_def Let_def split: sum.splits)

text \<open>
  C4. \<open>_any_hash\<close> is not total on the values a tag can hold: for \<open>None\<close>, a list, a
  tuple or a dict, \<open>int(v)\<close> raises a TypeError, which \<open>except ValueError\<close> does not
  catch, so the method raises and the lines that serialise a composite value are never
  reached. The list \<open>[1, 2]\<close> is a concrete input.
\<close>

theorem any_hash_raises_on_none_and_containers:
  "any_hash self VNone = Inl TypeError
   \<and> any_hash self (VList [VInt 1, VInt 2]) = Inl TypeError
   \<and> any_hash self (VList xs) = Inl TypeError
   \<and> any_hash self (VTuple xs) = Inl TypeError
   \<and> any_hash self (VDict kvs) = Inl TypeError"
  by (simp add: any_hash_def)

section \<open>TagsHasher: the constructor\<close>

text \<open>
  C9, as stated: a non-positive \<open>n_dim\<close> or \<open>max_val\<close> is rejected at construction.
  The constructor checks nothing: it returns a hasher for \<open>n_dim = 0\<close> and \<open>max_val = 0\<close>,
  for a negative \<open>n_dim\<close>, and for a negative \<open>max_val\<close>.
\<close>

theorem hasher_init_counterexample:
  "TagsHasher_init md5_sample 0 0 False
     = Inr \<lparr>n_dim = 0, max_val = 0, hash = md5_sample, sparse = False\<rparr>
   \<and> TagsHasher_init md5_sample (- 1) 65536 False
     = Inr \<lparr>n_dim = - 1, max_val = 65536, hash = md5_sample, sparse = False\<rparr>
   \<and> TagsHasher_init md5_sample 256 (- 65536) False
     = Inr \<lparr>n_dim = 256, max_val = - 65536, hash = md5_sample, sparse = False\<rparr>"
  by (simp add: TagsHasher_init_def)

lemma py_mod_zero: "py_mod x 0 = Inl ZeroDivisionError"
  by (cases x) (simp_all add: py_mod_def int_to_f64_def rnd_zero)

lemma encode_pair_zero_n_dim: "n_dim self = 0 \<Longrightarrow> isl (encode_pair self k v)"
  using any_hash_str [of self k]
  by (auto simp: encode_pair_def Let_def py_mod_zero split: sum.splits)

lemma encode_pair_zero_max_val: "max_val self = 0 \<Longrightarrow> isl (encode_pair self k v)"
  by (auto simp: encode_pair_def Let_def py_mod_zero split: sum.splits)

lemma encode_tags_bad_config:
  assumes "n_dim self \<le> 0 \<or> max_val self = 0" "A \<noteq> []"
  shows "isl (encode_tags self A)"
proof (cases "n_dim self < 0")
  case True
  then show ?thesis by (simp add: encode_tags_def np_zeros_def)
next
  case False
  obtain k v kvs where t: "A = (k, v) # kvs" using assms(2) by (cases A) auto
  have "isl (encode_pair self k v)"
    using assms(1) False encode_pair_zero_n_dim [of self k v] encode_pair_zero_max_val [of self k v]
    by auto
  then show ?thesis using False t
    by (auto simp: encode_tags_def np_zeros_def split: sum.splits)
qed

text \<open>
  C9, amended: the constructor never fails and stores \<open>n_dim\<close> and \<open>max_val\<close> as they
  are given. A hasher with \<open>n_dim \<le> 0\<close> or \<open>max_val = 0\<close> fails later, when \<open>encode\<close>
  meets a Document that has tags: every such Document raises (a ValueError of \<open>np.zeros\<close>
  for a negative \<open>n_dim\<close>, a ZeroDivisionError of \<open>%\<close> for a zero \<open>n_dim\<close> or \<open>max_val\<close>,
  unless \<open>_any_hash\<close> raises before). A negative \<open>max_val\<close> is accepted throughout.
\<close>

theorem hasher_init_accepts_every_configuration:
  "TagsHasher_init md5 n m sp = Inr \<lparr>n_dim = n, max_val = m, hash = md5, sparse = sp\<rparr>
   \<and> ((n \<le> 0 \<or> m = 0) \<and> A \<noteq> [] \<longrightarrow>
        isl (encode_tags \<lparr>n_dim = n, max_val = m, hash = md5, sparse = sp\<rparr> A))"
  using encode_tags_bad_config [of "\<lparr>n_dim = n, max_val = m, hash = md5, sparse = sp\<rparr>" A]
  by (simp add: TagsHasher_init_def)

lemma int_of_str_Subject: "int_of_str ''Subject'' = Inl ValueError"
  by (simp add: int_str_defs)

lemma float_of_str_Subject: "float_of_str ''Subject'' = Inl ValueError"
  by (simp add: str_defs)

lemma int_of_str_Comedy: "int_of_str ''Comedy'' = Inl ValueError"
  by (simp add: int_str_defs)

lemma float_of_str_Comedy: "float_of_str ''Comedy'' = Inl ValueError"
  by (simp add: str_defs)

lemma strip_Subject: "strip ''Subject'' = ''Subject''" and strip_Comedy: "strip ''Comedy'' = ''Comedy''"
  by (simp_all add: strip_def py_isspace_def)

lemma plain_text_Subject: "plain_text ''Subject''"
  by (simp add: plain_text_def int_of_str_Subject float_of_str_Subject strip_Subject lower_def lower_char_def)

lemma plain_text_Comedy: "plain_text ''Comedy''"
  by (simp add: plain_text_def int_of_str_Comedy float_of_str_Comedy strip_Comedy lower_def lower_char_def)

lemma any_hash_Subject:
  "hash self = md5_sample \<Longrightarrow>
   any_hash self (VStr ''Subject'') = Inr (PyInt 265228663692174087877860234804142081808)"
  by (simp add: any_hash_plain_text plain_text_Subject strip_Subject md5_sample_def)

lemma any_hash_Comedy:
  "hash self = md5_sample \<Longrightarrow>
   any_hash self (VStr ''Comedy'') = Inr (PyInt 306686241769178258088323892290493637646)"
  by (simp add: any_hash_plain_text plain_text_Comedy strip_Comedy md5_sample_def)

theorem hasher_init_accepts_every_configuration_witness:
  "TagsHasher_init md5_sample 0 0 False = Inr \<lparr>n_dim = 0, max_val = 0, hash = md5_sample, sparse = False\<rparr>
   \<and> isl (encode_tags \<lparr>n_dim = 0, max_val = 0, hash = md5_sample, sparse = False\<rparr>
         [(''Subject'', VStr ''Comedy'')])
   \<and> encode_tags \<lparr>n_dim = 0, max_val = 0, hash = md5_sample, sparse = False\<rparr>
         [(''Subject'', VStr ''Comedy'')] = Inl ZeroDivisionError"
  using hasher_init_accepts_every_configuration [of md5_sample 0 0 False "[(''Subject'', VStr ''Comedy'')]"]
  by (simp add: encode_tags_def np_zeros_def encode_pair_def any_hash_Subject py_mod_def)

section \<open>TagsHasher: the signs of the contributions\<close>

lemma encode_pair_plain_text:
  assumes "n_dim self \<noteq> 0" "max_val self \<noteq> 0" "plain_text k" "plain_text s"
  shows "encode_pair self k (VStr s) =
     Inr (PyInt (int (hash self (VStr (strip k))) mod n_dim self),
          PyInt (sgn (int (hash self (VStr (strip k)))) * sgn (int (hash self (VStr (strip s))))
                 * (int (hash self (VStr (strip s))) mod max_val self)))"
  using assms
  by (simp add: encode_pair_def any_hash_plain_text py_mod_def np_sign_def py_mul_def)

lemma encode_pair_negative:
  assumes "0 < max_val self" "encode_pair self k v = Inr (col, val)" "is_negative val"
  shows "parses_negative (VStr k) \<or> parses_negative v"
proof -
  from assms(2) obtain h a a' where
    h: "any_hash self (VStr k) = Inr h" and a: "any_hash self v = Inr a"
    and a': "py_mod a (max_val self) = Inr a'"
    and val: "val = py_mul (py_mul (np_sign h) (np_sign a)) a'"
    by (auto simp: encode_pair_def Let_def split: sum.splits)
  have "\<not> is_negative a'" using py_mod_nonneg [OF assms(1) a'] .
  then have "is_negative (py_mul (np_sign h) (np_sign a))"
    using assms(3) val neg_py_mul by blast
  then have "is_negative (np_sign h) \<or> is_negative (np_sign a)" by (rule neg_py_mul)
  then have "is_negative h \<or> is_negative a" using neg_np_sign by blast
  then show ?thesis using any_hash_negative [OF h] any_hash_negative [OF a] by blast
qed

lemma any_hash_int: "any_hash self (VInt n) = Inr (PyInt n)"
  by (simp add: any_hash_def)

lemma pair_Subject_Comedy:
  "encode_pair TagsHasher_default ''Subject'' (VStr ''Comedy'') = Inr (PyInt 16, PyInt 25614)"
  by (simp add: encode_pair_plain_text plain_text_Subject plain_text_Comedy strip_Subject
      strip_Comedy TagsHasher_default_def md5_sample_def)

lemma pair_Subject_minus_3:
  "encode_pair TagsHasher_default ''Subject'' (VInt (- 3)) = Inr (PyInt 16, PyInt (- 65533))"
proof -
  have "hash TagsHasher_default = md5_sample" by (simp add: TagsHasher_default_def)
  then have "any_hash TagsHasher_default (VStr ''Subject'')
     = Inr (PyInt 265228663692174087877860234804142081808)"
    by (rule any_hash_Subject)
  then show ?thesis
    by (simp add: encode_pair_def any_hash_int py_mod_def np_sign_def py_mul_def)
       (simp add: TagsHasher_default_def)
qed

text \<open>
  C10, as stated: a pair of plain-text name and value contributes a nonnegative number,
  and only names or values that parse as negative numbers contribute a negative one. The
  contribution is \<open>sign_h * sign_v * (val % max_val)\<close>, and \<open>%\<close> takes the sign of
  \<open>max_val\<close>, which the constructor accepts when it is negative: with \<open>max_val = -65536\<close>
  the pair (Subject, Comedy) contributes -39922.
\<close>

theorem plain_text_pair_counterexample:
  "plain_text ''Subject'' \<and> plain_text ''Comedy''
   \<and> encode_pair \<lparr>n_dim = 256, max_val = - 65536, hash = md5_sample, sparse = False\<rparr>
         ''Subject'' (VStr ''Comedy'') = Inr (PyInt 16, PyInt (- 39922))
   \<and> \<not> parses_negative (VStr ''Subject'') \<and> \<not> parses_negative (VStr ''Comedy'')"
  by (simp add: plain_text_Subject plain_text_Comedy encode_pair_def any_hash_Subject any_hash_Comedy
      py_mod_def np_sign_def py_mul_def parses_negative_def int_of_str_Subject int_of_str_Comedy
      float_of_str_Subject float_of_str_Comedy)

text \<open>
  C10, amended: for a hasher with a positive \<open>max_val\<close> (and \<open>n_dim\<close> not zero), a pair
  whose name and value are plain text is hashed by the digest of the stripped strings,
  which is never negative: each sign factor is +1 (it would be 0 for a string whose
  digest is the integer 0), and the contribution of the pair is nonnegative. For every
  pair at all, a negative contribution arises only when the name or the value parses as
  a negative number.
\<close>

theorem plain_text_pair_nonnegative:
  assumes "0 < max_val self" "n_dim self \<noteq> 0"
  shows "(plain_text k \<and> plain_text s \<longrightarrow>
            any_hash self (VStr k) = Inr (PyInt (int (hash self (VStr (strip k)))))
            \<and> any_hash self (VStr s) = Inr (PyInt (int (hash self (VStr (strip s)))))
            \<and> np_sign (PyInt (int (hash self (VStr (strip k)))))
                  = PyInt (if hash self (VStr (strip k)) = 0 then 0 else 1)
            \<and> np_sign (PyInt (int (hash self (VStr (strip s)))))
                  = PyInt (if hash self (VStr (strip s)) = 0 then 0 else 1)
            \<and> (\<exists>c x. encode_pair self k (VStr s) = Inr (PyInt c, PyInt x) \<and> 0 \<le> x))
         \<and> (encode_pair self k' v = Inr (col, val) \<and> is_negative val \<longrightarrow>
              parses_negative (VStr k') \<or> parses_negative v)"
proof -
  have "0 \<le> sgn (int (hash self (VStr (strip k)))) * sgn (int (hash self (VStr (strip s))))
           * (int (hash self (VStr (strip s))) mod max_val self)"
    using assms(1) by (simp add: sgn_if)
  then have "plain_text k \<and> plain_text s \<longrightarrow>
      (\<exists>c x. encode_pair self k (VStr s) = Inr (PyInt c, PyInt x) \<and> 0 \<le> x)"
    using assms encode_pair_plain_text [of self k s] by auto
  then show ?thesis
    using encode_pair_negative [OF assms(1), of k' v col val]
    by (auto simp: any_hash_plain_text np_sign_def sgn_if)
qed

theorem plain_text_pair_nonnegative_witness:
  "0 < max_val TagsHasher_default \<and> n_dim TagsHasher_default \<noteq> 0
   \<and> plain_text ''Subject'' \<and> plain_text ''Comedy''
   \<and> encode_pair TagsHasher_default ''Subject'' (VStr ''Comedy'') = Inr (PyInt 16, PyInt 25614)
   \<and> encode_pair TagsHasher_default ''Subject'' (VInt (- 3)) = Inr (PyInt 16, PyInt (- 65533))
   \<and> is_negative (PyInt (- 65533))
   \<and> (parses_negative (VStr ''Subject'') \<or> parses_negative (VInt (- 3)))"
proof -
  have c: "0 < max_val TagsHasher_default" "n_dim TagsHasher_default \<noteq> 0"
    by (simp_all add: TagsHasher_default_def)
  have n: "is_negative (PyInt (- 65533))" by (simp add: is_negative_def)
  from plain_text_pair_nonnegative [OF c, of "''Subject''" "''Comedy''"
      "''Subject''" "VInt (- 3)" "PyInt 16" "PyInt (- 65533)"]
  show ?thesis
    using c n pair_Subject_Comedy pair_Subject_minus_3 plain_text_Subject plain_text_Comedy
    by blast
qed

section \<open>TagsHasher: the embedding of integer-hashed tags\<close>

text \<open>
  When every name and value is hashed to an integer, each pair adds an integer below
  \<open>max_val\<close> in magnitude to the component of its column, and the float sums are exact
  as long as they stay within \<open>2 ^ 53\<close>.
\<close>

lemma is_int_hashD: "is_int_hash self v \<Longrightarrow> any_hash self v = Inr (PyInt (hash_int self v))"
  by (auto simp: is_int_hash_def hash_int_def split: sum.splits number.splits)

lemma encode_pair_int:
  assumes "is_int_hash self (VStr k)" "is_int_hash self v" "n_dim self \<noteq> 0" "max_val self \<noteq> 0"
  shows "encode_pair self k v = Inr (PyInt (col_of self (k, v)), PyInt (contribution self (k, v)))"
  using assms
  by (simp add: encode_pair_def is_int_hashD py_mod_def np_sign_def py_mul_def col_of_def
      contribution_def Let_def)

lemma abs_contribution:
  assumes "0 < max_val self"
  shows "\<bar>contribution self kv\<bar> \<le> max_val self - 1"
proof -
  define b where "b = hash_int self (snd kv) mod max_val self"
  have b: "0 \<le> b" "b < max_val self" using assms by (simp_all add: b_def)
  have "\<bar>contribution self kv\<bar> = \<bar>sgn (hash_int self (VStr (fst kv)))\<bar> * \<bar>sgn (hash_int self (snd kv))\<bar> * b"
    using b by (simp add: contribution_def b_def abs_mult)
  also have "\<dots> \<le> 1 * 1 * b"
    using b by (intro mult_mono) (simp_all add: abs_sgn_eq)
  finally show ?thesis using b by simp
qed

lemma col_of_range: "0 < n_dim self \<Longrightarrow> 0 \<le> col_of self kv \<and> col_of self kv < n_dim self"
  by (simp add: col_of_def)

lemma int_to_f64_exact: "\<bar>x\<bar> \<le> 2 ^ 53 \<Longrightarrow> int_to_f64 x = Inr (Fint x)"
  by (simp add: int_to_f64_def rnd_of_int)

lemma fadd_exact: "\<bar>a + x\<bar> \<le> 2 ^ 53 \<Longrightarrow> fadd (Fint a) (Fint x) = Fint (a + x)"
  using rnd_of_int [of "a + x"] by (simp add: fadd_def)

lemma table_add_exact:
  assumes "0 \<le> c" "nat c < length s" "\<bar>x\<bar> \<le> 2 ^ 53" "\<bar>s ! nat c + x\<bar> \<le> 2 ^ 53"
  shows "table_add (map Fint s) (PyInt c) (PyInt x) = Inr (map Fint (s[nat c := s ! nat c + x]))"
  using assms
  by (simp add: table_add_def Let_def int_to_f64_exact fadd_exact map_update)

lemma exact_sum_Cons:
  "exact_sum self (kv # A) i = (if col_of self kv = i then contribution self kv else 0) + exact_sum self A i"
  by (simp add: exact_sum_def)

lemma encode_items_exact:
  assumes "0 < n_dim self" "0 < max_val self"
  shows "int_hashed self A \<Longrightarrow> length s = nat (n_dim self) \<Longrightarrow>
    (\<forall>i<length s. \<bar>s ! i\<bar> + int (length A) * max_val self \<le> 2 ^ 53) \<Longrightarrow>
    \<exists>idxs' data'. encode_items self A (idxs, data, map Fint s) =
       Inr (idxs', data', map Fint (map (\<lambda>i. s ! i + exact_sum self A (int i)) [0..<length s]))"
proof (induction A arbitrary: idxs data s)
  case Nil
  have "map (\<lambda>i. s ! i + exact_sum self [] (int i)) [0..<length s] = s"
    by (simp add: exact_sum_def map_nth)
  then have "encode_items self [] (idxs, data, map Fint s) =
      Inr (idxs, data, map Fint (map (\<lambda>i. s ! i + exact_sum self [] (int i)) [0..<length s]))"
    by (simp only: encode_items.simps)
  then show ?case by blast
next
  case (Cons kv A)
  obtain k v where kv: "kv = (k, v)" by (cases kv)
  define c where "c = col_of self kv"
  define x where "x = contribution self kv"
  define s' where "s' = s[nat c := s ! nat c + x]"
  have hashed: "is_int_hash self (VStr k)" "is_int_hash self v" "int_hashed self A"
    using Cons.prems(1) by (simp_all add: int_hashed_def kv)
  have c: "0 \<le> c" "nat c < length s"
    using col_of_range [OF assms(1), of kv] Cons.prems(2) by (simp_all add: c_def)
  have x: "\<bar>x\<bar> \<le> max_val self - 1" using abs_contribution [OF assms(2)] by (simp add: x_def)
  have bound: "\<bar>s ! i\<bar> + (int (length A) + 1) * max_val self \<le> 2 ^ 53" if "i < length s" for i
    using Cons.prems(3) that by (simp add: algebra_simps)
  have len_nonneg: "0 \<le> int (length A) * max_val self" using assms(2) by simp
  have bc: "\<bar>s ! nat c\<bar> + int (length A) * max_val self + max_val self \<le> 2 ^ 53"
    using bound [OF c(2)] by (simp add: algebra_simps)
  have x53: "\<bar>x\<bar> \<le> 2 ^ 53"
    using bc x len_nonneg by linarith
  have sx53: "\<bar>s ! nat c + x\<bar> \<le> 2 ^ 53"
    using bc x len_nonneg by linarith
  have pair: "encode_pair self k v = Inr (PyInt c, PyInt x)"
    using encode_pair_int [OF hashed(1,2)] assms by (simp add: c_def x_def kv)
  have add: "table_add (map Fint s) (PyInt c) (PyInt x) = Inr (map Fint s')"
    using table_add_exact [OF c x53 sx53] by (simp add: s'_def)
  have len': "length s' = nat (n_dim self)" using Cons.prems(2) by (simp add: s'_def)
  have bound': "\<forall>i<length s'. \<bar>s' ! i\<bar> + int (length A) * max_val self \<le> 2 ^ 53"
  proof (intro allI impI)
    fix i assume i: "i < length s'"
    then have i': "i < length s" by (simp add: s'_def)
    show "\<bar>s' ! i\<bar> + int (length A) * max_val self \<le> 2 ^ 53"
    proof (cases "i = nat c")
      case True
      have "\<bar>s' ! i\<bar> \<le> \<bar>s ! i\<bar> + \<bar>x\<bar>" using True c by (simp add: s'_def)
      moreover have "\<bar>s ! i\<bar> + int (length A) * max_val self + max_val self \<le> 2 ^ 53"
        using bound [OF i'] by (simp add: algebra_simps)
      ultimately show ?thesis using x by linarith
    next
      case False
      then have "s' ! i = s ! i" by (simp add: s'_def)
      moreover have "\<bar>s ! i\<bar> + int (length A) * max_val self + max_val self \<le> 2 ^ 53"
        using bound [OF i'] by (simp add: algebra_simps)
      ultimately show ?thesis using assms(2) by linarith
    qed
  qed
  from Cons.IH [OF hashed(3) len' bound', of "idxs @ [(0, PyInt c)]" "data @ [PyInt x]"]
  obtain idxs' data' where ih: "encode_items self A (idxs @ [(0, PyInt c)], data @ [PyInt x], map Fint s') =
       Inr (idxs', data', map Fint (map (\<lambda>i. s' ! i + exact_sum self A (int i)) [0..<length s']))"
    by blast
  have "map (\<lambda>i. s' ! i + exact_sum self A (int i)) [0..<length s']
      = map (\<lambda>i. s ! i + exact_sum self (kv # A) (int i)) [0..<length s]"
  proof (rule nth_equalityI)
    show "length (map (\<lambda>i. s' ! i + exact_sum self A (int i)) [0..<length s'])
        = length (map (\<lambda>i. s ! i + exact_sum self (kv # A) (int i)) [0..<length s])"
      by (simp add: s'_def)
  next
    fix i assume "i < length (map (\<lambda>i. s' ! i + exact_sum self A (int i)) [0..<length s'])"
    then have i: "i < length s" by (simp add: s'_def)
    have "int i = c \<longleftrightarrow> i = nat c" using c by auto
    then show "map (\<lambda>i. s' ! i + exact_sum self A (int i)) [0..<length s'] ! i
        = map (\<lambda>i. s ! i + exact_sum self (kv # A) (int i)) [0..<length s] ! i"
      using i by (auto simp: s'_def exact_sum_Cons c_def x_def)
  qed
  then show ?case using ih pair add by (simp add: kv)
qed

lemma np_zeros_F: "0 \<le> n \<Longrightarrow> np_zeros n = Inr (map Fint (replicate (nat n) 0))"
  by (simp add: np_zeros_def)

lemma encode_tags_exact:
  assumes "0 < n_dim self" "0 < max_val self" "\<not> sparse self" "int_hashed self A"
    "int (length A) * max_val self \<le> 2 ^ 53"
  shows "encode_tags self A = Inr (Dense (map (\<lambda>i. Fint (exact_sum self A (int i))) [0..<nat (n_dim self)]))"
proof -
  define s where "s = replicate (nat (n_dim self)) (0::int)"
  have len: "length s = nat (n_dim self)" by (simp add: s_def)
  have bound: "\<forall>i<length s. \<bar>s ! i\<bar> + int (length A) * max_val self \<le> 2 ^ 53"
    using assms(5) by (simp add: s_def)
  from encode_items_exact [OF assms(1,2,4) len bound, of "[]" "[]"]
  obtain idxs' data' where "encode_items self A ([], [], map Fint s) =
       Inr (idxs', data', map Fint (map (\<lambda>i. s ! i + exact_sum self A (int i)) [0..<length s]))"
    by blast
  moreover have "map Fint (map (\<lambda>i. s ! i + exact_sum self A (int i)) [0..<length s])
      = map (\<lambda>i. Fint (exact_sum self A (int i))) [0..<nat (n_dim self)]"
    by (simp add: s_def)
  ultimately show ?thesis
    using assms(1,3) np_zeros_F [of "n_dim self"] by (simp add: encode_tags_def s_def)
qed

lemma exact_sum_mset:
  "exact_sum self A i = sum_mset (image_mset (contribution self) (filter_mset (\<lambda>kv. col_of self kv = i) (mset A)))"
  by (simp add: exact_sum_def sum_mset_sum_list [symmetric])

lemma distinct_keys_mset:
  assumes "distinct (map fst A)" "distinct (map fst B)" "set A = set B"
  shows "mset A = mset B"
proof -
  have "distinct A" "distinct B" using assms(1,2) by (simp_all add: distinct_map)
  then show ?thesis using assms(3) by (simp add: set_eq_iff_mset_eq_distinct)
qed




section \<open>TagsHasher: the embeddings of the examples\<close>

lemma int_to_f64_65536: "int_to_f64 65536 = Inr (Finite 65536)"
  using int_to_f64_exact [of 65536] by simp

lemma float_of_str_01: "float_of_str ''0.1'' = Inr (Finite (3602879701896397 / 36028797018963968))"
  using rnd_cert [of "(1 / 10)" "- 56" 7205759403792794]
  by (simp add: str_defs round_half_even_near)

lemma float_of_str_02: "float_of_str ''0.2'' = Inr (Finite (3602879701896397 / 18014398509481984))"
  using rnd_cert [of "(1 / 5)" "- 55" 7205759403792794]
  by (simp add: str_defs round_half_even_near)

lemma float_of_str_03: "float_of_str ''0.3'' = Inr (Finite (5404319552844595 / 18014398509481984))"
  using rnd_cert [of "(3 / 10)" "- 54" 5404319552844595]
  by (simp add: str_defs round_half_even_near)

lemma fmul_one_01: "fmul (Finite 1) (Finite (3602879701896397 / 36028797018963968)) = Finite (3602879701896397 / 36028797018963968)"
  using rnd_cert [of "1 * (3602879701896397 / 36028797018963968)" "- 56" 7205759403792794]
  by (simp add: fmul_def round_half_even_near)

lemma fadd_zero_01: "fadd (Finite 0) (Finite (3602879701896397 / 36028797018963968)) = Finite (3602879701896397 / 36028797018963968)"
  using rnd_cert [of "0 + (3602879701896397 / 36028797018963968)" "- 56" 7205759403792794]
  by (simp add: fadd_def round_half_even_near)

lemma fmul_one_02: "fmul (Finite 1) (Finite (3602879701896397 / 18014398509481984)) = Finite (3602879701896397 / 18014398509481984)"
  using rnd_cert [of "1 * (3602879701896397 / 18014398509481984)" "- 55" 7205759403792794]
  by (simp add: fmul_def round_half_even_near)

lemma fadd_zero_02: "fadd (Finite 0) (Finite (3602879701896397 / 18014398509481984)) = Finite (3602879701896397 / 18014398509481984)"
  using rnd_cert [of "0 + (3602879701896397 / 18014398509481984)" "- 55" 7205759403792794]
  by (simp add: fadd_def round_half_even_near)

lemma fmul_one_03: "fmul (Finite 1) (Finite (5404319552844595 / 18014398509481984)) = Finite (5404319552844595 / 18014398509481984)"
  using rnd_cert [of "1 * (5404319552844595 / 18014398509481984)" "- 54" 5404319552844595]
  by (simp add: fmul_def round_half_even_near)

lemma fadd_zero_03: "fadd (Finite 0) (Finite (5404319552844595 / 18014398509481984)) = Finite (5404319552844595 / 18014398509481984)"
  using rnd_cert [of "0 + (5404319552844595 / 18014398509481984)" "- 54" 5404319552844595]
  by (simp add: fadd_def round_half_even_near)

lemma fadd_01_02: "fadd (Finite (3602879701896397 / 36028797018963968)) (Finite (3602879701896397 / 18014398509481984)) = Finite (1351079888211149 / 4503599627370496)"
  using rnd_cert [of "(3602879701896397 / 36028797018963968) + (3602879701896397 / 18014398509481984)" "- 54" 5404319552844596]
    round_half_even_tie_odd [of "(10808639105689191 / 2)" 5404319552844595]
  by (simp add: fadd_def)

lemma fadd_01_02_03: "fadd (Finite (1351079888211149 / 4503599627370496)) (Finite (5404319552844595 / 18014398509481984)) = Finite (1351079888211149 / 2251799813685248)"
  using rnd_cert [of "(1351079888211149 / 4503599627370496) + (5404319552844595 / 18014398509481984)" "- 53" 5404319552844596]
    round_half_even_tie_odd [of "(10808639105689191 / 2)" 5404319552844595]
  by (simp add: fadd_def)

lemma fadd_03_02: "fadd (Finite (5404319552844595 / 18014398509481984)) (Finite (3602879701896397 / 18014398509481984)) = Finite (1 / 2)"
  using rnd_cert [of "(5404319552844595 / 18014398509481984) + (3602879701896397 / 18014398509481984)" "- 53" 4503599627370496]
  by (simp add: fadd_def round_half_even_near)

lemma fadd_03_02_01: "fadd (Finite (1 / 2)) (Finite (3602879701896397 / 36028797018963968)) = Finite (5404319552844595 / 9007199254740992)"
  using rnd_cert [of "(1 / 2) + (3602879701896397 / 36028797018963968)" "- 53" 5404319552844595]
  by (simp add: fadd_def round_half_even_near)



lemma any_hash_256: "any_hash self (VStr ''256'') = Inr (PyInt 256)"
  and any_hash_512: "any_hash self (VStr ''512'') = Inr (PyInt 512)"
  and any_hash_768: "any_hash self (VStr ''768'') = Inr (PyInt 768)"
  by (simp_all add: any_hash_def int_str_defs)

lemma any_hash_01: "any_hash self (VStr ''0.1'') = Inr (PyFloat (Finite (3602879701896397 / 36028797018963968)))"
  by (simp add: any_hash_def float_of_str_01 int_str_defs)

lemma any_hash_02: "any_hash self (VStr ''0.2'') = Inr (PyFloat (Finite (3602879701896397 / 18014398509481984)))"
  by (simp add: any_hash_def float_of_str_02 int_str_defs)

lemma any_hash_03: "any_hash self (VStr ''0.3'') = Inr (PyFloat (Finite (5404319552844595 / 18014398509481984)))"
  by (simp add: any_hash_def float_of_str_03 int_str_defs)

lemmas pair_defs = encode_pair_def py_mod_def np_sign_def py_mul_def to_f64_def float_rem_def
  trunc_def Let_def TagsHasher_default_def int_to_f64_65536 rnd_one

lemma pair_256_01:
  "encode_pair TagsHasher_default ''256'' (VStr ''0.1'')
     = Inr (PyInt 0, PyFloat (Finite (3602879701896397 / 36028797018963968)))"
  by (simp add: pair_defs any_hash_256 any_hash_01 fmul_one_one fmul_one_01)

lemma pair_512_02:
  "encode_pair TagsHasher_default ''512'' (VStr ''0.2'')
     = Inr (PyInt 0, PyFloat (Finite (3602879701896397 / 18014398509481984)))"
  by (simp add: pair_defs any_hash_512 any_hash_02 fmul_one_one fmul_one_02)

lemma pair_768_03:
  "encode_pair TagsHasher_default ''768'' (VStr ''0.3'')
     = Inr (PyInt 0, PyFloat (Finite (5404319552844595 / 18014398509481984)))"
  by (simp add: pair_defs any_hash_768 any_hash_03 fmul_one_one fmul_one_03)

lemma np_zeros_default: "np_zeros (n_dim TagsHasher_default) = Inr (replicate 256 (Finite 0))"
  by (simp add: np_zeros_def TagsHasher_default_def)

lemma table_add_float_0:
  "0 < length t \<Longrightarrow> table_add t (PyInt 0) (PyFloat f) = Inr (t[0 := fadd (t ! 0) f])"
  by (simp add: table_add_def Let_def)

lemma TagsHasher_default_fields:
  "n_dim TagsHasher_default = 256" "max_val TagsHasher_default = 65536"
  "hash TagsHasher_default = md5_sample" "sparse TagsHasher_default = False"
  by (simp_all add: TagsHasher_default_def)



















text \<open>
  C2, as stated: two mappings with the same pairs in a different order have the same
  embedding. The contributions of a dimension are added in float arithmetic in the order
  of iteration, and float addition is not associative: the names 256, 512 and 768 are
  all hashed to dimension 0, and the values 0.1, 0.2 and 0.3 add up to
  0.6000000000000001 in this order and to 0.6 in the reverse order.
\<close>

theorem encode_order_counterexample:
  "set [(''256'', VStr ''0.1''), (''512'', VStr ''0.2''), (''768'', VStr ''0.3'')]
     = set [(''768'', VStr ''0.3''), (''512'', VStr ''0.2''), (''256'', VStr ''0.1'')]
   \<and> encode_tags TagsHasher_default [(''256'', VStr ''0.1''), (''512'', VStr ''0.2''), (''768'', VStr ''0.3'')]
     = Inr (Dense ((replicate 256 (Finite 0))[0 := Finite (1351079888211149 / 2251799813685248)]))
   \<and> encode_tags TagsHasher_default [(''768'', VStr ''0.3''), (''512'', VStr ''0.2''), (''256'', VStr ''0.1'')]
     = Inr (Dense ((replicate 256 (Finite 0))[0 := Finite (5404319552844595 / 9007199254740992)]))
   \<and> encode_tags TagsHasher_default [(''256'', VStr ''0.1''), (''512'', VStr ''0.2''), (''768'', VStr ''0.3'')]
     \<noteq> encode_tags TagsHasher_default [(''768'', VStr ''0.3''), (''512'', VStr ''0.2''), (''256'', VStr ''0.1'')]"
proof -
  have a: "encode_tags TagsHasher_default [(''256'', VStr ''0.1''), (''512'', VStr ''0.2''), (''768'', VStr ''0.3'')]
     = Inr (Dense ((replicate 256 (Finite 0))[0 := Finite (1351079888211149 / 2251799813685248)]))"
    by (simp add: encode_tags_def np_zeros_default pair_256_01 pair_512_02 pair_768_03 table_add_float_0
        fadd_zero_01 fadd_01_02 fadd_01_02_03)
       (simp add: TagsHasher_default_def)
  have b: "encode_tags TagsHasher_default [(''768'', VStr ''0.3''), (''512'', VStr ''0.2''), (''256'', VStr ''0.1'')]
     = Inr (Dense ((replicate 256 (Finite 0))[0 := Finite (5404319552844595 / 9007199254740992)]))"
    by (simp add: encode_tags_def np_zeros_default pair_256_01 pair_512_02 pair_768_03 table_add_float_0
        fadd_zero_03 fadd_03_02 fadd_03_02_01)
       (simp add: TagsHasher_default_def)
  have c: "(replicate 256 (Finite 0))[0 := Finite (1351079888211149 / 2251799813685248)]
      \<noteq> (replicate 256 (Finite 0))[0 := Finite (5404319552844595 / 9007199254740992)]"
    by (simp add: list_eq_iff_nth_eq) (rule exI [of _ 0], simp)
  have d: "set [(''256'', VStr ''0.1''), (''512'', VStr ''0.2''), (''768'', VStr ''0.3'')]
     = set [(''768'', VStr ''0.3''), (''512'', VStr ''0.2''), (''256'', VStr ''0.1'')]"
    by auto
  show ?thesis using c d by (simp only: a b) simp
qed

lemma int_hashed_set: "set A' = set A \<Longrightarrow> int_hashed self A \<Longrightarrow> int_hashed self A'"
  by (simp add: int_hashed_def list_all_iff)

text \<open>
  C2, amended: for a dense hasher with positive \<open>n_dim\<close> and \<open>max_val\<close>, two mappings
  (lists of pairs with distinct names) that hold the same pairs, all of whose names and
  values are hashed to integers (at most \<open>2 ^ 53 / max_val\<close> pairs), have the same
  embedding, whatever the order of the pairs.
\<close>

theorem encode_tags_order_independent:
  assumes "0 < n_dim self" "0 < max_val self" "\<not> sparse self" "int_hashed self A"
    "int (length A) * max_val self \<le> 2 ^ 53"
    "distinct (map fst A)" "distinct (map fst A')" "set A' = set A"
  shows "encode_tags self A' = encode_tags self A"
proof -
  have m: "mset A' = mset A" using assms(6-8) by (intro distinct_keys_mset) simp_all
  then have len: "length A' = length A" by (rule mset_eq_length)
  have h: "int_hashed self A'" using assms(8,4) by (rule int_hashed_set)
  have s: "exact_sum self A' i = exact_sum self A i" for i
    by (simp only: exact_sum_mset m)
  have "encode_tags self A'
      = Inr (Dense (map (\<lambda>i. Fint (exact_sum self A' (int i))) [0..<nat (n_dim self)]))"
    using assms(5) len by (intro encode_tags_exact [OF assms(1-3) h]) simp
  moreover have "encode_tags self A
      = Inr (Dense (map (\<lambda>i. Fint (exact_sum self A (int i))) [0..<nat (n_dim self)]))"
    by (rule encode_tags_exact [OF assms(1-5)])
  ultimately show ?thesis by (simp add: s)
qed

lemma int_hashed_two:
  "int_hashed TagsHasher_default [(''Subject'', VStr ''Comedy''), (''Comedy'', VStr ''Subject'')]"
  by (simp add: int_hashed_def is_int_hash_def any_hash_Subject any_hash_Comedy TagsHasher_default_fields)

theorem encode_tags_order_independent_witness:
  "0 < n_dim TagsHasher_default \<and> 0 < max_val TagsHasher_default \<and> \<not> sparse TagsHasher_default
   \<and> int_hashed TagsHasher_default [(''Subject'', VStr ''Comedy''), (''Comedy'', VStr ''Subject'')]
   \<and> distinct (map fst [(''Subject'', VStr ''Comedy''), (''Comedy'', VStr ''Subject'')])
   \<and> distinct (map fst [(''Comedy'', VStr ''Subject''), (''Subject'', VStr ''Comedy'')])
   \<and> set [(''Comedy'', VStr ''Subject''), (''Subject'', VStr ''Comedy'')]
       = set [(''Subject'', VStr ''Comedy''), (''Comedy'', VStr ''Subject'')]
   \<and> encode_tags TagsHasher_default [(''Comedy'', VStr ''Subject''), (''Subject'', VStr ''Comedy'')]
       = encode_tags TagsHasher_default [(''Subject'', VStr ''Comedy''), (''Comedy'', VStr ''Subject'')]"
proof -
  have c: "0 < n_dim TagsHasher_default" "0 < max_val TagsHasher_default" "\<not> sparse TagsHasher_default"
    "int (length [(''Subject'', VStr ''Comedy''), (''Comedy'', VStr ''Subject'')])
       * max_val TagsHasher_default \<le> 2 ^ 53"
    by (simp_all add: TagsHasher_default_fields)
  have d: "distinct (map fst [(''Subject'', VStr ''Comedy''), (''Comedy'', VStr ''Subject'')])"
    "distinct (map fst [(''Comedy'', VStr ''Subject''), (''Subject'', VStr ''Comedy'')])"
    by simp_all
  have e: "set [(''Comedy'', VStr ''Subject''), (''Subject'', VStr ''Comedy'')]
       = set [(''Subject'', VStr ''Comedy''), (''Comedy'', VStr ''Subject'')]"
    by auto
  from encode_tags_order_independent [OF c(1-3) int_hashed_two c(4) d e]
  show ?thesis using c d e int_hashed_two by simp
qed

end
